theory Spec2Isabelle
  imports Main "HOL-Library.Option_ord"
begin

section \<open>JSON values and the JavaScript operations the handlers apply to them\<close>

text \<open>
  Values typed \<open>any\<close> in the source (template variables, template components) are JSON
  documents. \<open>null\<close> and \<open>undefined\<close> are both \<open>JNull\<close>: the source only tests them
  for falsiness, reads a property of them (a TypeError for both) or applies \<open>??\<close>
  (which treats both alike). Numbers are the integers a double holds exactly (magnitude
  below \<open>2 ^ 53\<close>), which print as their digits. An object has no key twice
  (\<open>lookup\<close> reads the first) and no key \<open>toString\<close> of its own: on an object with
  such a key \<open>String\<close> throws, where \<open>js_String\<close> below answers
  \<open>[object Object]\<close>.
\<close>

datatype json =
    JNull
  | JBool bool
  | JNum int
  | JStr string
  | JArr "json list"
  | JObj "(string \<times> json) list"

datatype exn = TypeError

fun truthy :: "json \<Rightarrow> bool" where
  "truthy JNull = False"
| "truthy (JBool b) = b"
| "truthy (JNum n) = (n \<noteq> 0)"
| "truthy (JStr s) = (s \<noteq> [])"
| "truthy (JArr xs) = True"
| "truthy (JObj kv) = True"

definition lookup :: "string \<Rightarrow> (string \<times> json) list \<Rightarrow> json" where
  "lookup k kv = (case map_of kv k of None \<Rightarrow> JNull | Some v \<Rightarrow> v)"

text \<open>\<open>x?.k\<close>: the property of an object, \<open>undefined\<close> for anything else.\<close>

fun opt_prop :: "string \<Rightarrow> json \<Rightarrow> json" where
  "opt_prop k (JObj kv) = lookup k kv"
| "opt_prop k v = JNull"

text \<open>\<open>x.k\<close>: as \<open>x?.k\<close>, but reading a property of \<open>null\<close> or \<open>undefined\<close> throws.\<close>

fun get_prop :: "string \<Rightarrow> json \<Rightarrow> exn + json" where
  "get_prop k JNull = Inl TypeError"
| "get_prop k v = Inr (opt_prop k v)"

fun show_nat :: "nat \<Rightarrow> string" where
  "show_nat n = (if n < 10 then [''0123456789'' ! n]
                 else show_nat (n div 10) @ [''0123456789'' ! (n mod 10)])"

declare show_nat.simps [simp del]

definition show_int :: "int \<Rightarrow> string" where
  "show_int i = (if i < 0 then CHR ''-'' # show_nat (nat (- i)) else show_nat (nat i))"

fun join_comma :: "string list \<Rightarrow> string" where
  "join_comma [] = []"
| "join_comma [s] = s"
| "join_comma (s # t # ss) = s @ '','' @ join_comma (t # ss)"

text \<open>\<open>String(v)\<close> on a JSON value.\<close>

fun js_String :: "json \<Rightarrow> string" where
  "js_String JNull = ''null''"
| "js_String (JBool b) = (if b then ''true'' else ''false'')"
| "js_String (JNum n) = show_int n"
| "js_String (JStr s) = s"
| "js_String (JArr xs) = join_comma (map (\<lambda>x. if x = JNull then [] else js_String x) xs)"
| "js_String (JObj kv) = ''[object Object]''"

text \<open>The callback of \<open>vars.body.map\<close>: \<open>{ type: "text", text: String(v.text ?? v) }\<close>.\<close>

definition text_param :: "json \<Rightarrow> exn + json" where
  "text_param v =
     (case get_prop ''text'' v of
        Inl e \<Rightarrow> Inl e
      | Inr t \<Rightarrow> Inr (JObj [(''type'', JStr ''text''),
                            (''text'', JStr (js_String (if t = JNull then v else t)))]))"

fun map_throwing :: "('a \<Rightarrow> exn + 'b) \<Rightarrow> 'a list \<Rightarrow> exn + 'b list" where
  "map_throwing f [] = Inr []"
| "map_throwing f (x # xs) =
     (case f x of
        Inl e \<Rightarrow> Inl e
      | Inr y \<Rightarrow> (case map_throwing f xs of Inl e \<Rightarrow> Inl e | Inr ys \<Rightarrow> Inr (y # ys)))"

text \<open>\<open>body.map(...)\<close> for a truthy \<open>body\<close>: only an array has \<open>map\<close>.\<close>

fun body_params :: "json \<Rightarrow> exn + json" where
  "body_params (JArr vs) =
     (case map_throwing text_param vs of Inl e \<Rightarrow> Inl e | Inr ps \<Rightarrow> Inr (JArr ps))"
| "body_params v = Inl TypeError"

definition image_param :: "string \<Rightarrow> json" where
  "image_param link =
     JArr [JObj [(''type'', JStr ''image''), (''image'', JObj [(''link'', JStr link)])]]"

text \<open>\<open>!orig?.length\<close> is false exactly when \<open>has_length\<close> holds.\<close>

fun has_length :: "json \<Rightarrow> bool" where
  "has_length (JArr xs) = (xs \<noteq> [])"
| "has_length (JStr s) = (s \<noteq> [])"
| "has_length (JObj kv) = truthy (lookup ''length'' kv)"
| "has_length v = False"

text \<open>\<open>{ ...comp }\<close>: the own enumerable properties of the value.\<close>

fun spread :: "json \<Rightarrow> (string \<times> json) list" where
  "spread (JObj kv) = kv"
| "spread (JArr xs) = zip (map show_nat [0..<length xs]) xs"
| "spread (JStr s) = zip (map show_nat [0..<length s]) (map (\<lambda>c. JStr [c]) s)"
| "spread v = []"

definition set_prop :: "string \<Rightarrow> json \<Rightarrow> (string \<times> json) list \<Rightarrow> (string \<times> json) list" where
  "set_prop k v kv =
     (if k \<in> fst ` set kv then map (\<lambda>(k', v'). if k' = k then (k', v) else (k', v')) kv
      else kv @ [(k, v)])"

definition delete_prop :: "string \<Rightarrow> (string \<times> json) list \<Rightarrow> (string \<times> json) list" where
  "delete_prop k kv = filter (\<lambda>(k', v'). k' \<noteq> k) kv"

definition header_given :: "string option \<Rightarrow> bool" where
  "header_given header = (case header of None \<Rightarrow> False | Some h \<Rightarrow> h \<noteq> [])"

text \<open>The callback of \<open>orig.map\<close> in \<open>buildTemplateComponents\<close>.\<close>

definition copy_component :: "json \<Rightarrow> string option \<Rightarrow> json \<Rightarrow> exn + json" where
  "copy_component vars header component =
     (let copy = spread component;
          copy1 = (if lookup ''type'' copy = JStr ''HEADER'' \<and> lookup ''format'' copy = JStr ''IMAGE''
                      \<and> header_given header
                   then set_prop ''parameters'' (image_param (the header)) copy else copy)
      in case (if lookup ''type'' copy1 = JStr ''BODY'' \<and> truthy (opt_prop ''body'' vars)
               then (case body_params (opt_prop ''body'' vars) of
                       Inl e \<Rightarrow> Inl e
                     | Inr ps \<Rightarrow> Inr (set_prop ''parameters'' ps copy1))
               else Inr copy1) of
           Inl e \<Rightarrow> Inl e
         | Inr copy2 \<Rightarrow>
             Inr (JObj (if truthy (lookup ''example'' copy2)
                        then delete_prop ''example'' copy2 else copy2)))"

text \<open>
  \<open>buildTemplateComponents(orig, vars, header)\<close>; the result \<open>None\<close> is \<open>undefined\<close>.
\<close>

definition buildTemplateComponents ::
  "json \<Rightarrow> json \<Rightarrow> string option \<Rightarrow> exn + json list option" where
  "buildTemplateComponents orig vars header =
     (if \<not> has_length orig then
        (if \<not> header_given header \<and> \<not> truthy (opt_prop ''body'' vars) then Inr None
         else
           (let c = (if header_given header
                     then [JObj [(''type'', JStr ''HEADER''),
                                 (''parameters'', image_param (the header))]]
                     else [])
            in if truthy (opt_prop ''body'' vars)
               then (case body_params (opt_prop ''body'' vars) of
                       Inl e \<Rightarrow> Inl e
                     | Inr ps \<Rightarrow>
                         Inr (Some (c @ [JObj [(''type'', JStr ''BODY''), (''parameters'', ps)]])))
               else Inr (Some c)))
      else
        (case orig of
           JArr comps \<Rightarrow>
             (case map_throwing (copy_component vars header) comps of
                Inl e \<Rightarrow> Inl e
              | Inr cs \<Rightarrow> Inr (Some cs))
         | _ \<Rightarrow> Inl TypeError))"


section \<open>The WhatsApp client (\<open>_shared/wa.ts\<close>)\<close>

text \<open>
  What \<open>fetch\<close> and \<open>response.json()\<close> did: either one of them threw (network
  error, timeout, a body that is not JSON), or there is a response with its \<open>ok\<close> flag,
  its status and its parsed body.
\<close>

datatype http_outcome =
    FetchThrew string
  | HttpResponse bool int json

record wa_params =
  wabaPhoneId :: string
  token :: string
  idempotencyKey :: string

record wa_payload =
  template_name :: string
  language_code :: string
  components :: "json list option"

text \<open>
  The result of \<open>callWhatsAppApi\<close>: \<open>WAOk message_id\<close> for \<open>success: true\<close>,
  \<open>WAErr error_code error_message\<close> otherwise; an absent \<open>error_code\<close> is \<open>JNull\<close>.
  The function catches whatever \<open>fetch\<close> and \<open>response.json()\<close> throw, and the
  TypeError of reading a property of a body that is \<open>null\<close> (\<open>messages\<close> when the
  response is ok, \<open>error\<close> otherwise), and answers a failure without a code whose
  message is the message of the exception.
\<close>

datatype wa_res =
    WAOk json
  | WAErr json string

text \<open>\<open>xs[0]\<close> on a JSON value that is not \<open>null\<close>.\<close>

fun first_elem :: "json \<Rightarrow> json" where
  "first_elem (JArr []) = JNull"
| "first_elem (JArr (x # xs)) = x"
| "first_elem (JStr []) = JNull"
| "first_elem (JStr (c # cs)) = JStr [c]"
| "first_elem (JObj kv) = lookup ''0'' kv"
| "first_elem v = JNull"

definition or_else :: "json \<Rightarrow> json \<Rightarrow> json" where
  "or_else a b = (if truthy a then a else b)"

definition wa_error_message :: "json \<Rightarrow> string" where
  "wa_error_message err =
     (if truthy (opt_prop ''type'' err) then js_String (opt_prop ''type'' err) @ '' - '' else [])
     @ js_String (or_else (opt_prop ''message'' err) (JStr ''Unknown WhatsApp API Error''))
     @ (if truthy (opt_prop ''error_user_title'' err)
        then '' ('' @ js_String (opt_prop ''error_user_title'' err) @ '')'' else [])"

definition wa_failure :: "int \<Rightarrow> json \<Rightarrow> wa_res" where
  "wa_failure status responseData =
     (let err = or_else (opt_prop ''error'' responseData) (JObj [])
      in WAErr (or_else (opt_prop ''code'' err) (JNum status)) (wa_error_message err))"

definition callWhatsAppApi :: "http_outcome \<Rightarrow> wa_res" where
  "callWhatsAppApi outcome =
     (case outcome of
        FetchThrew msg \<Rightarrow>
          WAErr JNull (if msg \<noteq> [] then msg else ''Network error or invalid JSON response'')
      | HttpResponse ok status responseData \<Rightarrow>
          (if responseData = JNull
           then WAErr JNull
                  (''Cannot read properties of null (reading ''
                     @ (if ok then ''messages'' else ''error'') @ '')'')
           else if ok \<and> truthy (opt_prop ''messages'' responseData)
                   \<and> truthy (opt_prop ''id'' (first_elem (opt_prop ''messages'' responseData)))
           then WAOk (opt_prop ''id'' (first_elem (opt_prop ''messages'' responseData)))
           else wa_failure status responseData))"

section \<open>The bulk send processor (\<open>bulk-send-processor\<close>)\<close>

subsection \<open>Constants\<close>

definition BATCH_SIZE :: nat where "BATCH_SIZE = 20"
definition MAX_RETRIES :: int where "MAX_RETRIES = 3"
definition RETRY_BACKOFF_S :: "int list" where "RETRY_BACKOFF_S = [60, 300, 1800]"
definition RATE_LIMIT_CODES :: "int list" where
  "RATE_LIMIT_CODES = [429, 471, 80007, 131047, 80004, 20]"
definition PERM_TEMPLATE_ERR :: int where "PERM_TEMPLATE_ERR = 470"

subsection \<open>Tables\<close>

datatype queue_status = Pending | Processing | Retry_queued

record template_row =
  tpl_name :: string
  tpl_language :: string
  components_json :: json

record business_number =
  waba_phone_number_id :: string
  access_token :: string
  bn_segment :: string

record bulk_send =
  message_templates_cache :: "template_row option"
  business_whatsapp_number_id :: string
  business_whatsapp_numbers :: "business_number option"

text \<open>
  A row of \<open>message_queue\<close> with the rows it joins to. The first eight fields are the
  \<open>QueueItem\<close> the handler selects; times are milliseconds since the epoch.
\<close>

record queue_row =
  item_id :: string
  recipient_e164_phone :: string
  template_variables_used :: json
  image_url :: "string option"
  attempt_count :: int
  created_at :: int
  bulk_send_id :: string
  bulk_sends :: "bulk_send option"
  status :: queue_status
  next_attempt_at :: int
  last_attempt_at :: "int option"

datatype detail_status = Sent | Failed

record detail_row =
  d_bulk_send_id :: string
  mobile_number_e164 :: string
  d_status :: detail_status
  whatsapp_message_id :: json
  failure_reason :: "string option"

record channel_row =
  channel_id :: string
  is_rate_capped_today :: bool

text \<open>The calls the handler makes that leave the process, in the order it makes them.\<close>

datatype effect =
    MarkProcessing string int
  | CallWhatsApp string
  | SetRateCapped string
  | Requeue string int int
  | ConversationRpc string
  | InsertMessageRpc string
  | UpsertDetail string string detail_status
  | DeleteItem string

record qp_db =
  message_queue :: "queue_row list"
  bulk_send_details :: "detail_row list"
  channels :: "channel_row list"
  effects :: "effect list"

text \<open>
  What the world outside answers during one run: the error of the queue fetch, the clock
  at the fetch, at the claim of an item and in its failure handling, the outcome of the
  HTTP call, and the results of the two remote procedures. The handler does not look at
  the result of a write; here a write to a table takes effect, and nothing else writes
  to the tables during the run.
\<close>

record rpc_result =
  rpc_data :: "string option"
  rpc_error :: "string option"

record qp_env =
  queue_fetch_error :: "string option"
  now_fetch :: int
  now_mark :: "string \<Rightarrow> int"
  now_fail :: "string \<Rightarrow> int"
  wa_fetch :: "wa_params \<Rightarrow> string \<Rightarrow> wa_payload \<Rightarrow> http_outcome"
  get_or_create_conversation :: "string \<Rightarrow> string \<Rightarrow> string \<Rightarrow> rpc_result"
  insert_message :: "string \<Rightarrow> json \<Rightarrow> string option"


subsection \<open>Writes\<close>

definition log_effect :: "effect \<Rightarrow> qp_db \<Rightarrow> qp_db" where
  "log_effect e db = db\<lparr>effects := effects db @ [e]\<rparr>"

text \<open>\<open>update({ status: "processing", last_attempt_at: now }).eq("id", id)\<close>\<close>

definition mark_processing :: "int \<Rightarrow> string \<Rightarrow> qp_db \<Rightarrow> qp_db" where
  "mark_processing now i db =
     log_effect (MarkProcessing i now)
       (db\<lparr>message_queue :=
             map (\<lambda>r. if item_id r = i
                       then r\<lparr>status := Processing, last_attempt_at := Some now\<rparr> else r)
                 (message_queue db)\<rparr>)"

text \<open>\<open>update({ status: "retry_queued", attempt_count, next_attempt_at }).eq("id", id)\<close>\<close>

definition requeue :: "string \<Rightarrow> int \<Rightarrow> int \<Rightarrow> qp_db \<Rightarrow> qp_db" where
  "requeue i nextAttempt at db =
     log_effect (Requeue i nextAttempt at)
       (db\<lparr>message_queue :=
             map (\<lambda>r. if item_id r = i
                       then r\<lparr>status := Retry_queued, attempt_count := nextAttempt,
                               next_attempt_at := at\<rparr> else r)
                 (message_queue db)\<rparr>)"

definition delete_item :: "string \<Rightarrow> qp_db \<Rightarrow> qp_db" where
  "delete_item i db =
     log_effect (DeleteItem i)
       (db\<lparr>message_queue := filter (\<lambda>r. item_id r \<noteq> i) (message_queue db)\<rparr>)"

definition set_rate_capped :: "string \<Rightarrow> qp_db \<Rightarrow> qp_db" where
  "set_rate_capped b db =
     log_effect (SetRateCapped b)
       (db\<lparr>channels :=
             map (\<lambda>c. if channel_id c = b then c\<lparr>is_rate_capped_today := True\<rparr> else c)
                 (channels db)\<rparr>)"

definition same_detail :: "string \<Rightarrow> string \<Rightarrow> detail_row \<Rightarrow> bool" where
  "same_detail b m d = (d_bulk_send_id d = b \<and> mobile_number_e164 d = m)"

text \<open>
  The upsert of \<open>failPermanent\<close> on the conflict target \<open>bulk_send_id, mobile_number_e164\<close>:
  it carries no \<open>whatsapp_message_id\<close>, so an existing row keeps its own.
\<close>

definition upsert_failed :: "string \<Rightarrow> string \<Rightarrow> string \<Rightarrow> qp_db \<Rightarrow> qp_db" where
  "upsert_failed b m reason db =
     log_effect (UpsertDetail b m Failed)
       (db\<lparr>bulk_send_details :=
             (if list_ex (same_detail b m) (bulk_send_details db)
              then map (\<lambda>d. if same_detail b m d
                             then d\<lparr>d_status := Failed, failure_reason := Some reason\<rparr> else d)
                       (bulk_send_details db)
              else bulk_send_details db @
                   [\<lparr>d_bulk_send_id = b, mobile_number_e164 = m, d_status = Failed,
                     whatsapp_message_id = JNull, failure_reason = Some reason\<rparr>])\<rparr>)"

definition upsert_sent :: "string \<Rightarrow> string \<Rightarrow> json \<Rightarrow> string option \<Rightarrow> qp_db \<Rightarrow> qp_db" where
  "upsert_sent b m waId failure db =
     log_effect (UpsertDetail b m Sent)
       (db\<lparr>bulk_send_details :=
             (if list_ex (same_detail b m) (bulk_send_details db)
              then map (\<lambda>d. if same_detail b m d
                             then d\<lparr>d_status := Sent, whatsapp_message_id := waId,
                                     failure_reason := failure\<rparr> else d)
                       (bulk_send_details db)
              else bulk_send_details db @
                   [\<lparr>d_bulk_send_id = b, mobile_number_e164 = m, d_status = Sent,
                     whatsapp_message_id = waId, failure_reason = failure\<rparr>])\<rparr>)"

subsection \<open>The inner functions\<close>

definition failPermanent :: "queue_row \<Rightarrow> string \<Rightarrow> qp_db \<Rightarrow> qp_db" where
  "failPermanent row reason db =
     delete_item (item_id row)
       (upsert_failed (bulk_send_id row) (recipient_e164_phone row) (take 255 reason) db)"

text \<open>An interpolated \<open>${error_code}\<close>; an absent code prints as \<open>undefined\<close>.\<close>

definition code_text :: "json \<Rightarrow> string" where
  "code_text c = (if c = JNull then ''undefined'' else js_String c)"

text \<open>\<open>RATE_LIMIT_CODES.has(error_code ?? 0)\<close>\<close>

definition is_rate_limit_code :: "json \<Rightarrow> bool" where
  "is_rate_limit_code c =
     (case (if c = JNull then JNum 0 else c) of
        JNum n \<Rightarrow> n \<in> set RATE_LIMIT_CODES
      | _ \<Rightarrow> False)"

text \<open>\<open>RETRY_BACKOFF_S[attempt_count] ?? RETRY_BACKOFF_S.at(-1)\<close>\<close>

definition backoff :: "int \<Rightarrow> int" where
  "backoff n =
     (if 0 \<le> n \<and> n < int (length RETRY_BACKOFF_S) then RETRY_BACKOFF_S ! nat n
      else last RETRY_BACKOFF_S)"

text \<open>
  \<open>handleSendFailure(row, waErr, businessNumberId)\<close>, with the value \<open>now\<close> that
  \<open>Date.now()\<close> returns in it.
\<close>

definition handleSendFailure :: "int \<Rightarrow> queue_row \<Rightarrow> json \<Rightarrow> string \<Rightarrow> qp_db \<Rightarrow> qp_db" where
  "handleSendFailure now row error_code businessNumberId db =
     (if error_code = JNum PERM_TEMPLATE_ERR
      then failPermanent row (''Template error '' @ code_text error_code) db
      else
        (let db1 = (if is_rate_limit_code error_code
                    then set_rate_capped businessNumberId db else db)
         in if attempt_count row \<ge> MAX_RETRIES
            then failPermanent row (''Retries exhausted ('' @ code_text error_code @ '')'') db1
            else requeue (item_id row) (attempt_count row + 1)
                   (now + backoff (attempt_count row) * 1000) db1))"

subsection \<open>The handler\<close>

text \<open>
  The queue fetch: status \<open>pending\<close> or \<open>retry_queued\<close>, due, with every \<open>!inner\<close>
  embedding present, oldest first, at most \<open>BATCH_SIZE\<close> rows.
\<close>

definition inner_joined :: "queue_row \<Rightarrow> bool" where
  "inner_joined r =
     (case bulk_sends r of
        None \<Rightarrow> False
      | Some b \<Rightarrow> message_templates_cache b \<noteq> None \<and> business_whatsapp_numbers b \<noteq> None)"

definition selectable :: "int \<Rightarrow> queue_row \<Rightarrow> bool" where
  "selectable now r =
     ((status r = Pending \<or> status r = Retry_queued) \<and> next_attempt_at r \<le> now
      \<and> inner_joined r)"

definition fetch_queue :: "int \<Rightarrow> qp_db \<Rightarrow> queue_row list" where
  "fetch_queue now db =
     take BATCH_SIZE (sort_key created_at (filter (selectable now) (message_queue db)))"

text \<open>
  \<open>tpl\<close>, \<open>biz\<close> and \<open>bwnId\<close> of a row, or \<open>None\<close> when
  \<open>!tpl || !biz || !bwnId\<close>.
\<close>

definition joined_data :: "queue_row \<Rightarrow> (template_row \<times> business_number \<times> string) option" where
  "joined_data row =
     (case bulk_sends row of
        None \<Rightarrow> None
      | Some b \<Rightarrow>
          (case message_templates_cache b of
             None \<Rightarrow> None
           | Some tpl \<Rightarrow>
               (case business_whatsapp_numbers b of
                  None \<Rightarrow> None
                | Some biz \<Rightarrow>
                    if business_whatsapp_number_id b = [] then None
                    else Some (tpl, biz, business_whatsapp_number_id b))))"

text \<open>\<open>Array.isArray(c) ? c : c?.components\<close>\<close>

definition orig_components :: "json \<Rightarrow> json" where
  "orig_components c = (case c of JArr xs \<Rightarrow> JArr xs | _ \<Rightarrow> opt_prop ''components'' c)"

definition idempotency_key :: "queue_row \<Rightarrow> string" where
  "idempotency_key row = ''q-'' @ item_id row @ ''-'' @ show_int (attempt_count row)"

text \<open>
  The part of the loop body after a successful send: the conversation procedure, the
  message insert, the outcome row and the delete.
\<close>

definition after_send ::
  "qp_env \<Rightarrow> queue_row \<Rightarrow> business_number \<Rightarrow> string \<Rightarrow> json \<Rightarrow> qp_db \<Rightarrow> qp_db" where
  "after_send env row biz bwnId waId db =
     (let conv = get_or_create_conversation env (recipient_e164_phone row) bwnId (bn_segment biz);
          db1 = log_effect (ConversationRpc (item_id row)) db
      in if rpc_error conv \<noteq> None \<or> rpc_data conv = None \<or> rpc_data conv = Some []
         then failPermanent row
                (''Conversation RPC error: ''
                   @ (case rpc_error conv of None \<Rightarrow> ''undefined'' | Some m \<Rightarrow> m)) db1
         else
           (let insErr = insert_message env (the (rpc_data conv)) waId;
                db2 = log_effect (InsertMessageRpc (item_id row)) db1;
                failure = (case insErr of
                             None \<Rightarrow> None
                           | Some m \<Rightarrow> Some (take 255 (''DB insert failed: '' @ m)))
            in delete_item (item_id row)
                 (upsert_sent (bulk_send_id row) (recipient_e164_phone row) waId failure db2)))"

text \<open>The payload of the send, or the exception that building it throws.\<close>

definition build_payload :: "template_row \<Rightarrow> queue_row \<Rightarrow> exn + wa_payload" where
  "build_payload tpl row =
     (case buildTemplateComponents (orig_components (components_json tpl))
             (template_variables_used row) (image_url row) of
        Inl e \<Rightarrow> Inl e
      | Inr comps \<Rightarrow>
          Inr \<lparr>template_name = tpl_name tpl, language_code = tpl_language tpl,
               components = (if comps = Some [] then None else comps)\<rparr>)"

definition send_to_wa :: "qp_env \<Rightarrow> queue_row \<Rightarrow> business_number \<Rightarrow> wa_payload \<Rightarrow> wa_res" where
  "send_to_wa env row biz payload =
     callWhatsAppApi
       (wa_fetch env
          \<lparr>wabaPhoneId = waba_phone_number_id biz, token = access_token biz,
           idempotencyKey = idempotency_key row\<rparr>
          (recipient_e164_phone row) payload)"

text \<open>
  One iteration of \<open>for (const row of queue)\<close>. The first component is the exception the
  iteration throws, if any; the tables are as the exception leaves them.
\<close>

definition process_row :: "qp_env \<Rightarrow> queue_row \<Rightarrow> qp_db \<Rightarrow> exn option \<times> qp_db" where
  "process_row env row db =
     (case joined_data row of
        None \<Rightarrow> (None, failPermanent row ''Missing joined data'' db)
      | Some (tpl, biz, bwnId) \<Rightarrow>
          (let db1 = mark_processing (now_mark env (item_id row)) (item_id row) db
           in case build_payload tpl row of
                Inl e \<Rightarrow> (Some e, db1)
              | Inr payload \<Rightarrow>
                  (let wa = send_to_wa env row biz payload;
                       db2 = log_effect (CallWhatsApp (idempotency_key row)) db1
                   in case wa of
                        WAErr error_code error_message \<Rightarrow>
                          (None, handleSendFailure (now_fail env (item_id row)) row error_code
                                   bwnId db2)
                      | WAOk waId \<Rightarrow> (None, after_send env row biz bwnId waId db2))))"

fun process_rows :: "qp_env \<Rightarrow> queue_row list \<Rightarrow> qp_db \<Rightarrow> exn option \<times> qp_db" where
  "process_rows env [] db = (None, db)"
| "process_rows env (row # rest) db =
     (case process_row env row db of
        (Some e, db') \<Rightarrow> (Some e, db')
      | (None, db') \<Rightarrow> process_rows env rest db')"

text \<open>
  What the handler gives back: a response (code, HTTP status, \<open>processed\<close>) or, for an
  exception nothing catches, a rejection.
\<close>

datatype qp_result =
    Respond string nat "nat option"
  | Rejected exn

text \<open>
  \<open>respond(code, status, extra)\<close> builds a \<open>Response\<close> with a JSON body. The
  constructor throws a TypeError when the status is one that allows no body, as the 204
  of \<open>NO_WORK\<close> is, and nothing catches it.
\<close>

definition respond :: "string \<Rightarrow> nat \<Rightarrow> nat option \<Rightarrow> qp_result" where
  "respond code st processed =
     (if st \<in> {101, 103, 204, 205, 304} then Rejected TypeError else Respond code st processed)"

definition serve_queue :: "qp_env \<Rightarrow> qp_db \<Rightarrow> qp_result \<times> qp_db" where
  "serve_queue env db =
     (case queue_fetch_error env of
        Some err \<Rightarrow> (respond ''QUEUE_FETCH_ERROR'' 500 None, db)
      | None \<Rightarrow>
          (let queue = fetch_queue (now_fetch env) db
           in if queue = [] then (respond ''NO_WORK'' 204 None, db)
              else (case process_rows env queue db of
                      (Some e, db') \<Rightarrow> (Rejected e, db')
                    | (None, db') \<Rightarrow> (respond ''OK'' 200 (Some (length queue)), db'))))"


section \<open>The round-robin assignment (\<open>trigger-round-robin-assignment\<close>)\<close>

subsection \<open>Tables\<close>

definition CHUNK_SIZE :: nat where "CHUNK_SIZE = 200"

datatype conv_status = Open | Closed

record conversation =
  conv_id :: string
  conv_state :: conv_status
  assigned_agent_id :: "string option"
  conv_segment :: string
  version :: int
  conv_created_at :: int

record profile =
  profile_id :: string
  role :: string
  is_active :: bool
  present_today :: bool
  profile_segment :: string
  last_chat_assigned_at :: "int option"

record failed_assignment =
  cid :: string
  aid :: "string option"
  reason :: string

text \<open>The arguments of one call of \<open>assign_conversation_and_update_related\<close>.\<close>

record assign_call =
  p_actor_id :: string
  p_conversation_id :: string
  p_new_assignee_id :: string
  p_reason :: string
  p_version :: int

text \<open>
  What the assignment procedure answers: no error, an error (a version conflict, a row
  that is gone), or an exception out of the call.
\<close>

datatype rpc_outcome = RpcOk | RpcError string | RpcThrew

text \<open>
  What the world outside answers during one run. The conversations looked at are counted
  from 0 in the order the run looks at them; the answer to the roster fetch and to the
  assignment call made for a conversation is a function of its number, the error of a
  conversation fetch a function of the number of the chunk. The \<open>profile\<close> table is
  the same throughout a run, and only the run writes to the \<open>conversations\<close> table.
\<close>

record sched_env =
  user_id :: string
  lock_error :: "string option"
  lock_data :: "bool option"
  convos_error :: "nat \<Rightarrow> string option"
  agents_error :: "nat \<Rightarrow> string option"
  assign_outcome :: "nat \<Rightarrow> rpc_outcome"

text \<open>
  The state of a run: the \<open>conversations\<close> table, the variables \<open>agentCache\<close>,
  \<open>assignedCount\<close> and \<open>failedAssignments\<close>, the assignment calls made so far and the
  number of conversations looked at so far.
\<close>

record sched_state =
  conversations :: "conversation list"
  agentCache :: "string \<rightharpoonup> string list \<times> nat"
  assignedCount :: nat
  failedAssignments :: "failed_assignment list"
  rpc_calls :: "assign_call list"
  scanned :: nat

datatype exec = Continue sched_state | Thrown sched_state

subsection \<open>Queries\<close>

definition eligible :: "string \<Rightarrow> profile \<Rightarrow> bool" where
  "eligible seg p =
     (role p \<in> {''agent'', ''team_leader''} \<and> is_active p \<and> present_today p
      \<and> profile_segment p = seg)"

text \<open>
  The roster query: the ids of the eligible profiles of the segment, by
  \<open>last_chat_assigned_at\<close> ascending, nulls first (\<open>None\<close> is below every \<open>Some t\<close>).
\<close>

definition fetch_agents :: "profile list \<Rightarrow> string \<Rightarrow> string list" where
  "fetch_agents ps seg = map profile_id (sort_key last_chat_assigned_at (filter (eligible seg) ps))"

definition unassigned_open :: "string option \<Rightarrow> conversation \<Rightarrow> bool" where
  "unassigned_open target c =
     (conv_state c = Open \<and> assigned_agent_id c = None
      \<and> (case target of
            None \<Rightarrow> True
          | Some seg \<Rightarrow> if seg = [] then True else conv_segment c = seg))"

definition fetch_conversations :: "string option \<Rightarrow> conversation list \<Rightarrow> conversation list" where
  "fetch_conversations target cs =
     take CHUNK_SIZE (sort_key conv_created_at (filter (unassigned_open target) cs))"

text \<open>
  Modelled from the spec: the database procedure \<open>assign_conversation_and_update_related\<close>
  is not among the sources. When it reports no error, the conversation is assigned to the
  agent and its version is incremented; when it reports an error, the row is unchanged.
\<close>

definition assign_conversation :: "string \<Rightarrow> string \<Rightarrow> conversation list \<Rightarrow> conversation list" where
  "assign_conversation c a cs =
     map (\<lambda>r. if conv_id r = c then r\<lparr>assigned_agent_id := Some a, version := version r + 1\<rparr>
               else r) cs"

subsection \<open>One conversation\<close>

definition push_failed :: "failed_assignment \<Rightarrow> sched_state \<Rightarrow> sched_state" where
  "push_failed f st = st\<lparr>failedAssignments := failedAssignments st @ [f]\<rparr>"

text \<open>
  \<open>agentCache.get(convo.segment)\<close>, fetching and caching the roster when the segment has
  no entry yet. \<open>k\<close> is the number of the conversation. \<open>Inl\<close>: the fetch failed, the
  failure is recorded and the iteration ends.
\<close>

definition load_roster ::
  "sched_env \<Rightarrow> profile list \<Rightarrow> nat \<Rightarrow> conversation \<Rightarrow> sched_state
     \<Rightarrow> sched_state + sched_state \<times> string list \<times> nat" where
  "load_roster env ps k convo st =
     (case agentCache st (conv_segment convo) of
        Some entry \<Rightarrow> Inr (st, entry)
      | None \<Rightarrow>
          (case agents_error env k of
             Some msg \<Rightarrow>
               Inl (push_failed
                      \<lparr>cid = conv_id convo, aid = None,
                       reason = ''Failed to fetch agents for segment '' @ conv_segment convo
                                  @ '': '' @ msg\<rparr> st)
           | None \<Rightarrow>
               (let entry = (fetch_agents ps (conv_segment convo), 0)
                in Inr (st\<lparr>agentCache := (agentCache st)(conv_segment convo \<mapsto> entry)\<rparr>, entry))))"

text \<open>
  Lines 204 and 205: read the agent at the cursor, then advance the cursor. An index
  outside the list reads \<open>undefined\<close>, which is \<open>None\<close> here.
\<close>

definition select_agent ::
  "string \<Rightarrow> string list \<times> nat \<Rightarrow> sched_state \<Rightarrow> string option \<times> sched_state" where
  "select_agent seg entry st =
     (case entry of
        (list, idx) \<Rightarrow>
          ((if idx < length list then Some (list ! idx) else None),
           st\<lparr>agentCache := (agentCache st)(seg \<mapsto> (list, (idx + 1) mod length list))\<rparr>))"

text \<open>
  The assignment call and what follows it. Reading \<open>agentToAssign.id\<close> of
  \<open>undefined\<close> throws before the call is made.
\<close>

definition commit_assignment ::
  "sched_env \<Rightarrow> nat \<Rightarrow> conversation \<Rightarrow> string option \<Rightarrow> sched_state \<Rightarrow> exec" where
  "commit_assignment env k convo agentToAssign st =
     (case agentToAssign of
        None \<Rightarrow> Thrown st
      | Some a \<Rightarrow>
          (let st1 = st\<lparr>rpc_calls := rpc_calls st @
                         [\<lparr>p_actor_id = user_id env, p_conversation_id = conv_id convo,
                           p_new_assignee_id = a, p_reason = ''round-robin'',
                           p_version = version convo\<rparr>]\<rparr>
           in case assign_outcome env k of
                RpcThrew \<Rightarrow> Thrown st1
              | RpcError msg \<Rightarrow>
                  Continue (push_failed \<lparr>cid = conv_id convo, aid = Some a, reason = msg\<rparr> st1)
              | RpcOk \<Rightarrow>
                  Continue (st1\<lparr>conversations :=
                                   assign_conversation (conv_id convo) a (conversations st1),
                                 assignedCount := assignedCount st1 + 1\<rparr>)))"

text \<open>One iteration of \<open>for (const convo of conversationsInChunk)\<close>.\<close>

definition process_convo :: "sched_env \<Rightarrow> profile list \<Rightarrow> conversation \<Rightarrow> sched_state \<Rightarrow> exec" where
  "process_convo env ps convo st0 =
     (let k = scanned st0;
          st = st0\<lparr>scanned := k + 1\<rparr>
      in case load_roster env ps k convo st of
           Inl st1 \<Rightarrow> Continue st1
         | Inr (st1, entry) \<Rightarrow>
             if fst entry = []
             then Continue (push_failed
                              \<lparr>cid = conv_id convo, aid = None,
                               reason = ''No available agents in segment '' @ conv_segment convo\<rparr>
                              st1)
             else (case select_agent (conv_segment convo) entry st1 of
                     (agentToAssign, st2) \<Rightarrow> commit_assignment env k convo agentToAssign st2))"

fun process_chunk :: "sched_env \<Rightarrow> profile list \<Rightarrow> conversation list \<Rightarrow> sched_state \<Rightarrow> exec" where
  "process_chunk env ps [] st = Continue st"
| "process_chunk env ps (convo # rest) st =
     (case process_convo env ps convo st of
        Thrown st1 \<Rightarrow> Thrown st1
      | Continue st1 \<Rightarrow> process_chunk env ps rest st1)"

subsection \<open>The run\<close>

datatype sched_response =
    ErrorResponse string nat
  | Success nat nat "failed_assignment list option"

definition summary :: "sched_state \<Rightarrow> sched_response" where
  "summary st =
     Success (assignedCount st) (length (failedAssignments st))
       (if failedAssignments st = [] then None else Some (take 1000 (failedAssignments st)))"

text \<open>
  The \<open>while (moreConversationsToProcess)\<close> loop inside \<open>try\<close>, with the number \<open>i\<close> of
  the chunk. Nothing bounds the number of its iterations, so the function takes fuel, one
  unit for each iteration. The result is the response, \<open>None\<close> for a loop still running
  when the fuel is spent, and the state reached.
\<close>

fun chunk_loop ::
  "nat \<Rightarrow> sched_env \<Rightarrow> profile list \<Rightarrow> string option \<Rightarrow> nat \<Rightarrow> sched_state
     \<Rightarrow> sched_response option \<times> sched_state" where
  "chunk_loop 0 env ps target i st = (None, st)"
| "chunk_loop (Suc fuel) env ps target i st =
     (case convos_error env i of
        Some msg \<Rightarrow> (Some (ErrorResponse ''DB_ERROR'' 500), st)
      | None \<Rightarrow>
          (let chunk = fetch_conversations target (conversations st)
           in if chunk = [] then (Some (summary st), st)
              else (case process_chunk env ps chunk st of
                      Thrown st1 \<Rightarrow> (Some (ErrorResponse ''UNEXPECTED_ERROR'' 500), st1)
                    | Continue st1 \<Rightarrow>
                        if length chunk = CHUNK_SIZE
                        then chunk_loop fuel env ps target (i + 1) st1
                        else (Some (summary st1), st1))))"

definition initial_state :: "conversation list \<Rightarrow> sched_state" where
  "initial_state cs =
     \<lparr>conversations = cs, agentCache = Map.empty, assignedCount = 0, failedAssignments = [],
      rpc_calls = [], scanned = 0\<rparr>"

text \<open>
  The handler from the advisory lock on, for an authenticated admin (\<open>user_id\<close>) and a
  parsed body (\<open>target\<close> is \<open>targetSegment\<close>).
\<close>

definition assignment_run ::
  "nat \<Rightarrow> sched_env \<Rightarrow> profile list \<Rightarrow> string option \<Rightarrow> conversation list
     \<Rightarrow> sched_response option \<times> sched_state" where
  "assignment_run fuel env ps target cs =
     (case lock_error env of
        Some msg \<Rightarrow> (Some (ErrorResponse ''LOCK_ERROR'' 500), initial_state cs)
      | None \<Rightarrow>
          (case lock_data env of
             Some True \<Rightarrow> chunk_loop fuel env ps target 0 (initial_state cs)
           | _ \<Rightarrow> (Some (ErrorResponse ''RUNNING_ELSEWHERE'' 429), initial_state cs)))"


subsection \<open>Reading a run\<close>

definition result_state :: "exec \<Rightarrow> sched_state" where
  "result_state x = (case x of Continue st \<Rightarrow> st | Thrown st \<Rightarrow> st)"

text \<open>The agents selected so far, one for each assignment call, in the order of the calls.\<close>

definition assignees :: "sched_state \<Rightarrow> string list" where
  "assignees st = map p_new_assignee_id (rpc_calls st)"

fun thrown :: "exec \<Rightarrow> bool" where
  "thrown (Thrown st) = True"
| "thrown (Continue st) = False"

text \<open>
  Every cached roster is the roster of its segment, and a cursor into a roster that is
  not empty is an index of it.
\<close>

definition cache_ok :: "profile list \<Rightarrow> sched_state \<Rightarrow> bool" where
  "cache_ok ps st =
     (\<forall>seg list idx. agentCache st seg = Some (list, idx) \<longrightarrow>
        list = fetch_agents ps seg \<and> (list = [] \<or> idx < length list))"

definition call_for :: "sched_env \<Rightarrow> conversation \<Rightarrow> string \<Rightarrow> assign_call" where
  "call_for env convo a =
     \<lparr>p_actor_id = user_id env, p_conversation_id = conv_id convo, p_new_assignee_id = a,
      p_reason = ''round-robin'', p_version = version convo\<rparr>"

section \<open>Sample data\<close>

definition sample_template :: template_row where
  "sample_template = \<lparr>tpl_name = ''promo'', tpl_language = ''en'', components_json = JArr []\<rparr>"

definition sample_number :: business_number where
  "sample_number =
     \<lparr>waba_phone_number_id = ''1001'', access_token = ''secret'', bn_segment = ''sales''\<rparr>"

definition sample_bulk_send :: "string \<Rightarrow> bulk_send" where
  "sample_bulk_send bwn =
     \<lparr>message_templates_cache = Some sample_template, business_whatsapp_number_id = bwn,
      business_whatsapp_numbers = Some sample_number\<rparr>"

definition sample_row :: "string \<Rightarrow> int \<Rightarrow> json \<Rightarrow> string \<Rightarrow> queue_row" where
  "sample_row i n vars bwn =
     \<lparr>item_id = i, recipient_e164_phone = ''+15550100'', template_variables_used = vars,
      image_url = None, attempt_count = n, created_at = 10, bulk_send_id = ''b1'',
      bulk_sends = Some (sample_bulk_send bwn), status = Pending, next_attempt_at = 0,
      last_attempt_at = None\<rparr>"

definition sample_db :: "queue_row list \<Rightarrow> qp_db" where
  "sample_db rows =
     \<lparr>message_queue = rows, bulk_send_details = [],
      channels = [\<lparr>channel_id = ''bn1'', is_rate_capped_today = False\<rparr>], effects = []\<rparr>"

definition sample_env :: "http_outcome \<Rightarrow> qp_env" where
  "sample_env outcome =
     \<lparr>queue_fetch_error = None, now_fetch = 1000, now_mark = (\<lambda>i. 1000),
      now_fail = (\<lambda>i. 2000), wa_fetch = (\<lambda>p r m. outcome),
      get_or_create_conversation = (\<lambda>r b s. \<lparr>rpc_data = Some ''c1'', rpc_error = None\<rparr>),
      insert_message = (\<lambda>c w. None)\<rparr>"


definition sample_profile :: "string \<Rightarrow> string \<Rightarrow> int option \<Rightarrow> profile" where
  "sample_profile i r t =
     \<lparr>profile_id = i, role = r, is_active = True, present_today = True,
      profile_segment = ''sales'', last_chat_assigned_at = t\<rparr>"

definition sample_conversation :: "string \<Rightarrow> int \<Rightarrow> conversation" where
  "sample_conversation i t =
     \<lparr>conv_id = i, conv_state = Open, assigned_agent_id = None, conv_segment = ''sales'',
      version = 1, conv_created_at = t\<rparr>"

definition sample_sched_env ::
  "bool \<Rightarrow> (nat \<Rightarrow> string option) \<Rightarrow> (nat \<Rightarrow> rpc_outcome) \<Rightarrow> sched_env" where
  "sample_sched_env lock ae ao =
     \<lparr>user_id = ''admin'', lock_error = None, lock_data = Some lock,
      convos_error = (\<lambda>i. None), agents_error = ae, assign_outcome = ao\<rparr>"

section \<open>Properties of the bulk send processor\<close>

lemma message_queue_log_effect [simp]: "message_queue (log_effect e db) = message_queue db"
  and channels_log_effect [simp]: "channels (log_effect e db) = channels db"
  and details_log_effect [simp]: "bulk_send_details (log_effect e db) = bulk_send_details db"
  and effects_log_effect [simp]: "effects (log_effect e db) = effects db @ [e]"
  by (simp_all add: log_effect_def)

lemma mark_processing_simps [simp]:
  "message_queue (mark_processing now i db) =
     map (\<lambda>r. if item_id r = i then r\<lparr>status := Processing, last_attempt_at := Some now\<rparr> else r)
       (message_queue db)"
  "channels (mark_processing now i db) = channels db"
  "bulk_send_details (mark_processing now i db) = bulk_send_details db"
  "effects (mark_processing now i db) = effects db @ [MarkProcessing i now]"
  by (simp_all add: mark_processing_def)

lemma requeue_simps [simp]:
  "message_queue (requeue i n at db) =
     map (\<lambda>r. if item_id r = i
               then r\<lparr>status := Retry_queued, attempt_count := n, next_attempt_at := at\<rparr> else r)
       (message_queue db)"
  "channels (requeue i n at db) = channels db"
  "bulk_send_details (requeue i n at db) = bulk_send_details db"
  "effects (requeue i n at db) = effects db @ [Requeue i n at]"
  by (simp_all add: requeue_def)

lemma delete_item_simps [simp]:
  "message_queue (delete_item i db) = filter (\<lambda>r. item_id r \<noteq> i) (message_queue db)"
  "channels (delete_item i db) = channels db"
  "bulk_send_details (delete_item i db) = bulk_send_details db"
  "effects (delete_item i db) = effects db @ [DeleteItem i]"
  by (simp_all add: delete_item_def)

lemma set_rate_capped_simps [simp]:
  "message_queue (set_rate_capped b db) = message_queue db"
  "channels (set_rate_capped b db) =
     map (\<lambda>c. if channel_id c = b then c\<lparr>is_rate_capped_today := True\<rparr> else c) (channels db)"
  "bulk_send_details (set_rate_capped b db) = bulk_send_details db"
  "effects (set_rate_capped b db) = effects db @ [SetRateCapped b]"
  by (simp_all add: set_rate_capped_def)

lemma upsert_failed_simps [simp]:
  "message_queue (upsert_failed b m txt db) = message_queue db"
  "channels (upsert_failed b m txt db) = channels db"
  "effects (upsert_failed b m txt db) = effects db @ [UpsertDetail b m Failed]"
  by (simp_all add: upsert_failed_def)

lemma upsert_sent_simps [simp]:
  "message_queue (upsert_sent b m w f db) = message_queue db"
  "channels (upsert_sent b m w f db) = channels db"
  "effects (upsert_sent b m w f db) = effects db @ [UpsertDetail b m Sent]"
  by (simp_all add: upsert_sent_def)

lemma failPermanent_simps [simp]:
  "message_queue (failPermanent row txt db) =
     filter (\<lambda>r. item_id r \<noteq> item_id row) (message_queue db)"
  "channels (failPermanent row txt db) = channels db"
  "effects (failPermanent row txt db) =
     effects db @ [UpsertDetail (bulk_send_id row) (recipient_e164_phone row) Failed,
                   DeleteItem (item_id row)]"
  by (simp_all add: failPermanent_def)

lemma rate_limit_code_not_permanent:
  "is_rate_limit_code c \<Longrightarrow> c \<noteq> JNum PERM_TEMPLATE_ERR"
  by (auto simp: is_rate_limit_code_def RATE_LIMIT_CODES_def PERM_TEMPLATE_ERR_def)

lemma backoff_values: "backoff 0 = 60" "backoff 1 = 300" "backoff 2 = 1800"
  by (simp_all add: backoff_def RETRY_BACKOFF_S_def)

lemma handleSendFailure_requeue:
  assumes "c \<noteq> JNum PERM_TEMPLATE_ERR" and "attempt_count row < MAX_RETRIES"
  shows "handleSendFailure now row c b db =
           requeue (item_id row) (attempt_count row + 1)
             (now + backoff (attempt_count row) * 1000)
             (if is_rate_limit_code c then set_rate_capped b db else db)"
  using assms by (simp add: handleSendFailure_def Let_def)

lemma process_row_send_failure:
  assumes "joined_data row = Some (tpl, biz, b)"
    and "build_payload tpl row = Inr payload"
    and "send_to_wa env row biz payload = WAErr c msg"
  shows "process_row env row db =
           (None, handleSendFailure (now_fail env (item_id row)) row c b
                    (log_effect (CallWhatsApp (idempotency_key row))
                       (mark_processing (now_mark env (item_id row)) (item_id row) db)))"
  using assms by (simp add: process_row_def Let_def)

text \<open>
  C7. When the provider answers an item whose \<open>attempt_count\<close> was 0 with one of the
  rate-limit codes, the processor sets \<open>is_rate_capped_today\<close> of the channel and
  requeues the item: status \<open>retry_queued\<close>, \<open>attempt_count\<close> 1, \<open>next_attempt_at\<close>
  60 seconds after the clock reading of the failure handling.
\<close>

theorem rate_limited_first_attempt:
  assumes "joined_data row = Some (tpl, biz, b)"
    and "build_payload tpl row = Inr payload"
    and "send_to_wa env row biz payload = WAErr c msg"
    and "is_rate_limit_code c"
    and "attempt_count row = 0"
  shows "message_queue (snd (process_row env row db)) =
           map (\<lambda>r. if item_id r = item_id row
                     then r\<lparr>status := Retry_queued, attempt_count := 1,
                             next_attempt_at := now_fail env (item_id row) + 60 * 1000,
                             last_attempt_at := Some (now_mark env (item_id row))\<rparr>
                     else r)
             (message_queue db)
         \<and> channels (snd (process_row env row db)) =
           map (\<lambda>ch. if channel_id ch = b then ch\<lparr>is_rate_capped_today := True\<rparr> else ch)
             (channels db)"
  using assms rate_limit_code_not_permanent [of c]
  by (simp add: process_row_send_failure handleSendFailure_requeue MAX_RETRIES_def
      backoff_values comp_def if_distrib cong: if_cong)


lemma fetch_queue_subset: "set (fetch_queue t db) \<subseteq> {r \<in> set (message_queue db). selectable t r}"
proof -
  have "set (fetch_queue t db) \<subseteq> set (sort_key created_at (filter (selectable t) (message_queue db)))"
    unfolding fetch_queue_def by (rule set_take_subset)
  then show ?thesis by auto
qed

lemma fetch_queue_due: "r \<in> set (fetch_queue t db) \<Longrightarrow> next_attempt_at r \<le> t"
  using fetch_queue_subset [of t db] by (auto simp: selectable_def)

text \<open>
  C1. An item with \<open>attempt_count\<close> 2 whose send fails with any code but the permanent
  template error (a timeout has no code at all) becomes \<open>retry_queued\<close> with
  \<open>attempt_count\<close> 3 and \<open>next_attempt_at\<close> 1800 seconds after the clock reading of the
  failure handling, and no queue fetch made before that time returns it.
\<close>

theorem transient_failure_last_backoff:
  assumes "joined_data row = Some (tpl, biz, b)"
    and "build_payload tpl row = Inr payload"
    and "send_to_wa env row biz payload = WAErr c msg"
    and "c \<noteq> JNum PERM_TEMPLATE_ERR"
    and "attempt_count row = 2"
  shows "message_queue (snd (process_row env row db)) =
           map (\<lambda>r. if item_id r = item_id row
                     then r\<lparr>status := Retry_queued, attempt_count := 3,
                             next_attempt_at := now_fail env (item_id row) + 1800 * 1000,
                             last_attempt_at := Some (now_mark env (item_id row))\<rparr>
                     else r)
             (message_queue db)
         \<and> (\<forall>t. t < now_fail env (item_id row) + 1800 * 1000 \<longrightarrow>
               item_id row \<notin> item_id ` set (fetch_queue t (snd (process_row env row db))))"
proof -
  let ?db = "snd (process_row env row db)"
  let ?due = "now_fail env (item_id row) + 1800 * 1000"
  have q: "message_queue ?db =
           map (\<lambda>r. if item_id r = item_id row
                     then r\<lparr>status := Retry_queued, attempt_count := 3,
                             next_attempt_at := ?due,
                             last_attempt_at := Some (now_mark env (item_id row))\<rparr>
                     else r)
             (message_queue db)"
    using assms
    by (simp add: process_row_send_failure handleSendFailure_requeue MAX_RETRIES_def
        backoff_values comp_def if_distrib cong: if_cong)
  have "item_id row \<notin> item_id ` set (fetch_queue t ?db)" if "t < ?due" for t
  proof
    assume "item_id row \<in> item_id ` set (fetch_queue t ?db)"
    then obtain r where r: "r \<in> set (fetch_queue t ?db)" and i: "item_id r = item_id row"
      by auto
    from r have "r \<in> set (message_queue ?db)"
      using fetch_queue_subset [of t ?db] by auto
    with i have "next_attempt_at r = ?due"
      unfolding q by (auto split: if_splits)
    moreover have "next_attempt_at r \<le> t"
      using r by (rule fetch_queue_due)
    ultimately show False using that by simp
  qed
  with q show ?thesis by blast
qed

lemma process_row_queue_shape:
  fixes env row db
  defines "m \<equiv> (\<lambda>r. if item_id r = item_id row
                      then r\<lparr>status := Processing,
                              last_attempt_at := Some (now_mark env (item_id row))\<rparr> else r)"
  shows "message_queue (snd (process_row env row db)) =
           filter (\<lambda>r. item_id r \<noteq> item_id row) (message_queue db)
       \<or> message_queue (snd (process_row env row db)) =
           filter (\<lambda>r. item_id r \<noteq> item_id row) (map m (message_queue db))
       \<or> message_queue (snd (process_row env row db)) = map m (message_queue db)
       \<or> (attempt_count row < MAX_RETRIES
            \<and> message_queue (snd (process_row env row db)) =
                map (\<lambda>r. if item_id r = item_id row
                          then r\<lparr>status := Retry_queued, attempt_count := attempt_count row + 1,
                                  next_attempt_at := now_fail env (item_id row)
                                     + backoff (attempt_count row) * 1000\<rparr>
                          else r)
                  (map m (message_queue db)))"
  unfolding m_def
  by (simp add: process_row_def handleSendFailure_def after_send_def Let_def
      split: option.split sum.split wa_res.split prod.split)

lemma process_row_attempts:
  assumes c: "\<forall>r \<in> set (message_queue db). item_id r = item_id row \<longrightarrow> attempt_count r = attempt_count row"
    and r': "r' \<in> set (message_queue (snd (process_row env row db)))"
  shows "\<exists>r \<in> set (message_queue db). item_id r = item_id r'
           \<and> attempt_count r \<le> attempt_count r'
           \<and> (attempt_count r \<le> MAX_RETRIES \<longrightarrow> attempt_count r' \<le> MAX_RETRIES)
           \<and> (item_id r' \<noteq> item_id row \<longrightarrow> attempt_count r' = attempt_count r)"
  using process_row_queue_shape [of env row db]
proof (elim disjE conjE)
  assume "message_queue (snd (process_row env row db)) =
           filter (\<lambda>r. item_id r \<noteq> item_id row) (message_queue db)"
  with r' show ?thesis by auto
next
  assume "message_queue (snd (process_row env row db)) =
           filter (\<lambda>r. item_id r \<noteq> item_id row)
             (map (\<lambda>r. if item_id r = item_id row
                      then r\<lparr>status := Processing,
                              last_attempt_at := Some (now_mark env (item_id row))\<rparr> else r)
                (message_queue db))"
  with r' show ?thesis by (auto split: if_splits)
next
  assume "message_queue (snd (process_row env row db)) =
           map (\<lambda>r. if item_id r = item_id row
                      then r\<lparr>status := Processing,
                              last_attempt_at := Some (now_mark env (item_id row))\<rparr> else r)
                (message_queue db)"
  with r' obtain r where "r \<in> set (message_queue db)"
    and "r' = (if item_id r = item_id row
                      then r\<lparr>status := Processing,
                              last_attempt_at := Some (now_mark env (item_id row))\<rparr> else r)"
    by auto
  then show ?thesis by (intro bexI [of _ r]) (auto split: if_splits)
next
  assume lt: "attempt_count row < MAX_RETRIES"
    and "message_queue (snd (process_row env row db)) =
                map (\<lambda>r. if item_id r = item_id row
                          then r\<lparr>status := Retry_queued, attempt_count := attempt_count row + 1,
                                  next_attempt_at := now_fail env (item_id row)
                                     + backoff (attempt_count row) * 1000\<rparr>
                          else r)
                  (map (\<lambda>r. if item_id r = item_id row
                      then r\<lparr>status := Processing,
                              last_attempt_at := Some (now_mark env (item_id row))\<rparr> else r)
                     (message_queue db))"
  with r' obtain r where r: "r \<in> set (message_queue db)"
    and "r' = (if item_id r = item_id row
               then r\<lparr>status := Retry_queued, attempt_count := attempt_count row + 1,
                       next_attempt_at := now_fail env (item_id row)
                                     + backoff (attempt_count row) * 1000,
                       last_attempt_at := Some (now_mark env (item_id row))\<rparr>
               else r)"
    by (auto split: if_splits)
  then show ?thesis using c lt by (intro bexI [of _ r]) (auto split: if_splits)
qed


lemma process_rows_attempts:
  assumes "distinct (map item_id queue)"
    and "\<forall>q \<in> set queue. \<forall>r \<in> set (message_queue db).
           item_id r = item_id q \<longrightarrow> attempt_count r = attempt_count q"
    and "r' \<in> set (message_queue (snd (process_rows env queue db)))"
  shows "\<exists>r \<in> set (message_queue db). item_id r = item_id r'
           \<and> attempt_count r \<le> attempt_count r'
           \<and> (attempt_count r \<le> MAX_RETRIES \<longrightarrow> attempt_count r' \<le> MAX_RETRIES)"
  using assms
proof (induction queue arbitrary: db)
  case Nil
  then show ?case by auto
next
  case (Cons q rest)
  obtain e db1 where step: "process_row env q db = (e, db1)"
    by (cases "process_row env q db")
  have own: "\<forall>r \<in> set (message_queue db). item_id r = item_id q \<longrightarrow> attempt_count r = attempt_count q"
    using Cons.prems(2) by simp
  have pre: "\<exists>r \<in> set (message_queue db). item_id r = item_id r1
           \<and> attempt_count r \<le> attempt_count r1
           \<and> (attempt_count r \<le> MAX_RETRIES \<longrightarrow> attempt_count r1 \<le> MAX_RETRIES)
           \<and> (item_id r1 \<noteq> item_id q \<longrightarrow> attempt_count r1 = attempt_count r)"
    if "r1 \<in> set (message_queue db1)" for r1
    using process_row_attempts [OF own, of r1 env] that step by simp
  show ?case
  proof (cases e)
    case (Some x)
    then have "snd (process_rows env (q # rest) db) = db1"
      using step by simp
    with Cons.prems(3) pre [of r'] show ?thesis by auto
  next
    case None
    then have res: "snd (process_rows env (q # rest) db) = snd (process_rows env rest db1)"
      using step by simp
    have d: "distinct (map item_id rest)" and nq: "item_id q \<notin> item_id ` set rest"
      using Cons.prems(1) by auto
    have cons1: "\<forall>q2 \<in> set rest. \<forall>r1 \<in> set (message_queue db1).
           item_id r1 = item_id q2 \<longrightarrow> attempt_count r1 = attempt_count q2"
    proof (intro ballI impI)
      fix q2 r1
      assume q2: "q2 \<in> set rest" and r1: "r1 \<in> set (message_queue db1)"
        and same: "item_id r1 = item_id q2"
      from q2 nq same have "item_id r1 \<noteq> item_id q" by force
      with pre [OF r1] obtain r where "r \<in> set (message_queue db)"
        and "item_id r = item_id r1" and "attempt_count r1 = attempt_count r" by auto
      with Cons.prems(2) q2 same show "attempt_count r1 = attempt_count q2" by auto
    qed
    from Cons.prems(3) res have "r' \<in> set (message_queue (snd (process_rows env rest db1)))"
      by simp
    from Cons.IH [OF d cons1 this] obtain r1 where r1: "r1 \<in> set (message_queue db1)"
      and a: "item_id r1 = item_id r'" "attempt_count r1 \<le> attempt_count r'"
        "attempt_count r1 \<le> MAX_RETRIES \<longrightarrow> attempt_count r' \<le> MAX_RETRIES"
      by auto
    from pre [OF r1] obtain r where "r \<in> set (message_queue db)"
      and "item_id r = item_id r1" "attempt_count r \<le> attempt_count r1"
        "attempt_count r \<le> MAX_RETRIES \<longrightarrow> attempt_count r1 \<le> MAX_RETRIES"
      by auto
    with a show ?thesis by (intro bexI [of _ r]) auto
  qed
qed

lemma fetch_queue_distinct:
  assumes "distinct (map item_id (message_queue db))"
  shows "distinct (map item_id (fetch_queue t db))"
proof -
  have inj: "inj_on item_id (set (message_queue db))" and d: "distinct (message_queue db)"
    using assms by (simp_all add: distinct_map)
  have "distinct (fetch_queue t db)"
    unfolding fetch_queue_def using d by (simp add: distinct_take)
  moreover have "inj_on item_id (set (fetch_queue t db))"
    using fetch_queue_subset [of t db] inj by (auto intro: inj_on_subset)
  ultimately show ?thesis by (simp add: distinct_map)
qed

lemma fetch_queue_consistent:
  assumes "distinct (map item_id (message_queue db))"
    and "q \<in> set (fetch_queue t db)" and "r \<in> set (message_queue db)"
    and "item_id r = item_id q"
  shows "r = q"
proof -
  have "inj_on item_id (set (message_queue db))"
    using assms(1) by (simp add: distinct_map)
  moreover have "q \<in> set (message_queue db)"
    using assms(2) fetch_queue_subset [of t db] by auto
  ultimately show ?thesis using assms(3,4) by (auto dest: inj_onD)
qed

lemma handleSendFailure_exhausted:
  assumes "MAX_RETRIES \<le> attempt_count row"
  shows "message_queue (handleSendFailure now row c b db) =
           filter (\<lambda>r. item_id r \<noteq> item_id row) (message_queue db)"
  using assms by (simp add: handleSendFailure_def Let_def)

text \<open>
  C6. Over a run of the processor on a queue with distinct ids, every row still in the
  queue afterwards was there before with an \<open>attempt_count\<close> no larger, and an
  \<open>attempt_count\<close> within \<open>MAX_RETRIES\<close> stays within it. The failure handling deletes
  an item that has reached \<open>MAX_RETRIES\<close>, after writing a \<open>failed\<close> outcome, and where
  it leaves the item in the queue the count was strictly below \<open>MAX_RETRIES\<close> and is now
  one more.
\<close>

theorem attempt_count_monotone_bounded:
  assumes "distinct (map item_id (message_queue db))"
  shows "(\<forall>r' \<in> set (message_queue (snd (serve_queue env db))).
           \<exists>r \<in> set (message_queue db). item_id r = item_id r'
             \<and> attempt_count r \<le> attempt_count r'
             \<and> (attempt_count r \<le> MAX_RETRIES \<longrightarrow> attempt_count r' \<le> MAX_RETRIES))
       \<and> (\<forall>now (row :: queue_row) c b d. MAX_RETRIES \<le> attempt_count row \<longrightarrow>
             message_queue (handleSendFailure now row c b d) =
               filter (\<lambda>r. item_id r \<noteq> item_id row) (message_queue d)
             \<and> (\<exists>es. effects (handleSendFailure now row c b d) =
                   es @ [UpsertDetail (bulk_send_id row) (recipient_e164_phone row) Failed,
                         DeleteItem (item_id row)]))
       \<and> (\<forall>now (row :: queue_row) c b d.
             \<forall>r \<in> set (message_queue (handleSendFailure now row c b d)).
               item_id r = item_id row \<longrightarrow>
               attempt_count row < MAX_RETRIES \<and> attempt_count r = attempt_count row + 1)"
proof (intro conjI allI impI ballI)
  fix r'
  assume r': "r' \<in> set (message_queue (snd (serve_queue env db)))"
  show "\<exists>r \<in> set (message_queue db). item_id r = item_id r'
             \<and> attempt_count r \<le> attempt_count r'
             \<and> (attempt_count r \<le> MAX_RETRIES \<longrightarrow> attempt_count r' \<le> MAX_RETRIES)"
  proof (cases "queue_fetch_error env = None \<and> fetch_queue (now_fetch env) db \<noteq> []")
    case False
    then have "snd (serve_queue env db) = db"
      by (auto simp: serve_queue_def Let_def split: option.splits)
    with r' show ?thesis by auto
  next
    case True
    let ?q = "fetch_queue (now_fetch env) db"
    have "snd (serve_queue env db) = snd (process_rows env ?q db)"
      using True by (auto simp: serve_queue_def Let_def split: option.splits prod.splits)
    with r' have in': "r' \<in> set (message_queue (snd (process_rows env ?q db)))"
      by simp
    have "\<forall>q \<in> set ?q. \<forall>r \<in> set (message_queue db).
           item_id r = item_id q \<longrightarrow> attempt_count r = attempt_count q"
      using fetch_queue_consistent [OF assms] by blast
    from process_rows_attempts [OF fetch_queue_distinct [OF assms] this in']
    show ?thesis .
  qed
next
  fix now and row :: queue_row and c b d
  assume "MAX_RETRIES \<le> attempt_count row"
  then show "message_queue (handleSendFailure now row c b d) =
               filter (\<lambda>r. item_id r \<noteq> item_id row) (message_queue d)"
    by (rule handleSendFailure_exhausted)
next
  fix now and row :: queue_row and c b d
  assume "MAX_RETRIES \<le> attempt_count row"
  then show "\<exists>es. effects (handleSendFailure now row c b d) =
                   es @ [UpsertDetail (bulk_send_id row) (recipient_e164_phone row) Failed,
                         DeleteItem (item_id row)]"
    by (simp add: handleSendFailure_def Let_def)
next
  fix now and row :: queue_row and c b d r
  assume r: "r \<in> set (message_queue (handleSendFailure now row c b d))"
    and i: "item_id r = item_id row"
  show "attempt_count row < MAX_RETRIES"
  proof (rule ccontr)
    assume "\<not> attempt_count row < MAX_RETRIES"
    then have "MAX_RETRIES \<le> attempt_count row" by simp
    from handleSendFailure_exhausted [OF this] r i show False by auto
  qed
next
  fix now and row :: queue_row and c b d r
  assume r: "r \<in> set (message_queue (handleSendFailure now row c b d))"
    and i: "item_id r = item_id row"
  then show "attempt_count r = attempt_count row + 1"
    by (auto simp: handleSendFailure_def Let_def split: if_splits)
qed



subsection \<open>The theorems at the sample data\<close>

lemmas sample_defs = sample_template_def sample_number_def sample_bulk_send_def sample_row_def
  sample_db_def sample_env_def

lemma sample_joined:
  "joined_data (sample_row i n vars ''bn1'') = Some (sample_template, sample_number, ''bn1'')"
  by (simp add: joined_data_def sample_defs)

lemma sample_payload:
  "build_payload sample_template (sample_row i n JNull b) =
     Inr \<lparr>template_name = ''promo'', language_code = ''en'', components = None\<rparr>"
  by (simp add: build_payload_def buildTemplateComponents_def orig_components_def
      header_given_def sample_defs)

lemma sample_send:
  "send_to_wa (sample_env outcome) row biz payload = callWhatsAppApi outcome"
  by (simp add: send_to_wa_def sample_env_def)

theorem rate_limited_first_attempt_witness:
  "is_rate_limit_code (JNum 131047)
   \<and> attempt_count (sample_row ''q1'' 0 JNull ''bn1'') = 0
   \<and> send_to_wa (sample_env (HttpResponse False 400 (JObj [(''error'', JObj [(''code'', JNum 131047)])])))
        (sample_row ''q1'' 0 JNull ''bn1'') sample_number
        \<lparr>template_name = ''promo'', language_code = ''en'', components = None\<rparr>
      = WAErr (JNum 131047) ''Unknown WhatsApp API Error''
   \<and> message_queue
        (snd (process_row
           (sample_env (HttpResponse False 400 (JObj [(''error'', JObj [(''code'', JNum 131047)])])))
           (sample_row ''q1'' 0 JNull ''bn1'') (sample_db [sample_row ''q1'' 0 JNull ''bn1''])))
      = [(sample_row ''q1'' 0 JNull ''bn1'')
           \<lparr>status := Retry_queued, attempt_count := 1, next_attempt_at := 62000,
            last_attempt_at := Some 1000\<rparr>]
   \<and> channels
        (snd (process_row
           (sample_env (HttpResponse False 400 (JObj [(''error'', JObj [(''code'', JNum 131047)])])))
           (sample_row ''q1'' 0 JNull ''bn1'') (sample_db [sample_row ''q1'' 0 JNull ''bn1''])))
      = [\<lparr>channel_id = ''bn1'', is_rate_capped_today = True\<rparr>]"
proof -
  let ?env = "sample_env (HttpResponse False 400 (JObj [(''error'', JObj [(''code'', JNum 131047)])]))"
  let ?row = "sample_row ''q1'' 0 JNull ''bn1''"
  have c: "is_rate_limit_code (JNum 131047)"
    by (simp add: is_rate_limit_code_def RATE_LIMIT_CODES_def)
  have a: "attempt_count ?row = 0"
    by (simp add: sample_row_def)
  have s: "send_to_wa ?env ?row sample_number
             \<lparr>template_name = ''promo'', language_code = ''en'', components = None\<rparr>
           = WAErr (JNum 131047) ''Unknown WhatsApp API Error''"
    by (simp add: sample_send callWhatsAppApi_def wa_failure_def wa_error_message_def
        or_else_def lookup_def)
  note t = rate_limited_first_attempt [OF sample_joined sample_payload s c a,
      of "sample_db [?row]"]
  have "message_queue (snd (process_row ?env ?row (sample_db [?row]))) =
          [?row\<lparr>status := Retry_queued, attempt_count := 1, next_attempt_at := 62000,
                 last_attempt_at := Some 1000\<rparr>]"
    using t by (simp add: sample_defs)
  moreover have "channels (snd (process_row ?env ?row (sample_db [?row]))) =
          [\<lparr>channel_id = ''bn1'', is_rate_capped_today = True\<rparr>]"
    using t by (simp add: sample_defs)
  ultimately show ?thesis using c a s by simp
qed

theorem transient_failure_last_backoff_witness:
  "attempt_count (sample_row ''q1'' 2 JNull ''bn1'') = 2
   \<and> send_to_wa (sample_env (FetchThrew ''The signal has been aborted''))
        (sample_row ''q1'' 2 JNull ''bn1'') sample_number
        \<lparr>template_name = ''promo'', language_code = ''en'', components = None\<rparr>
      = WAErr JNull ''The signal has been aborted''
   \<and> message_queue
        (snd (process_row (sample_env (FetchThrew ''The signal has been aborted''))
           (sample_row ''q1'' 2 JNull ''bn1'') (sample_db [sample_row ''q1'' 2 JNull ''bn1''])))
      = [(sample_row ''q1'' 2 JNull ''bn1'')
           \<lparr>status := Retry_queued, attempt_count := 3, next_attempt_at := 1802000,
            last_attempt_at := Some 1000\<rparr>]
   \<and> ''q1'' \<notin> item_id ` set (fetch_queue 1801999
        (snd (process_row (sample_env (FetchThrew ''The signal has been aborted''))
           (sample_row ''q1'' 2 JNull ''bn1'') (sample_db [sample_row ''q1'' 2 JNull ''bn1'']))))"
proof -
  let ?env = "sample_env (FetchThrew ''The signal has been aborted'')"
  let ?row = "sample_row ''q1'' 2 JNull ''bn1''"
  have a: "attempt_count ?row = 2"
    by (simp add: sample_row_def)
  have s: "send_to_wa ?env ?row sample_number
             \<lparr>template_name = ''promo'', language_code = ''en'', components = None\<rparr>
           = WAErr JNull ''The signal has been aborted''"
    by (simp add: sample_send callWhatsAppApi_def)
  have c: "JNull \<noteq> JNum PERM_TEMPLATE_ERR"
    by simp
  note t = transient_failure_last_backoff [OF sample_joined sample_payload s c a,
      of "sample_db [?row]"]
  have q: "message_queue (snd (process_row ?env ?row (sample_db [?row]))) =
          [?row\<lparr>status := Retry_queued, attempt_count := 3, next_attempt_at := 1802000,
                 last_attempt_at := Some 1000\<rparr>]"
    using t by (simp add: sample_defs)
  have "item_id ?row \<notin> item_id ` set (fetch_queue 1801999
          (snd (process_row ?env ?row (sample_db [?row]))))"
    using t by (simp add: sample_env_def)
  then have "''q1'' \<notin> item_id ` set (fetch_queue 1801999
          (snd (process_row ?env ?row (sample_db [?row]))))"
    by (simp add: sample_row_def)
  with q a s show ?thesis by simp
qed


lemma sample_fetch:
  "fetch_queue 1000 (sample_db [sample_row i n vars b]) = [sample_row i n vars b]"
  by (simp add: fetch_queue_def selectable_def inner_joined_def BATCH_SIZE_def sample_defs)

theorem attempt_count_monotone_bounded_witness:
  "distinct (map item_id (message_queue (sample_db [sample_row ''q1'' 2 JNull ''bn1''])))
   \<and> message_queue (snd (serve_queue (sample_env (FetchThrew ''timeout''))
        (sample_db [sample_row ''q1'' 2 JNull ''bn1''])))
      = [(sample_row ''q1'' 2 JNull ''bn1'')
           \<lparr>status := Retry_queued, attempt_count := 3, next_attempt_at := 1802000,
            last_attempt_at := Some 1000\<rparr>]
   \<and> (\<exists>r \<in> set (message_queue (sample_db [sample_row ''q1'' 2 JNull ''bn1''])).
         item_id r = ''q1'' \<and> attempt_count r \<le> 3)
   \<and> message_queue (handleSendFailure 2000 (sample_row ''q1'' 3 JNull ''bn1'') JNull ''bn1''
        (sample_db [sample_row ''q1'' 3 JNull ''bn1''])) = []"
proof -
  let ?env = "sample_env (FetchThrew ''timeout'')"
  let ?row = "sample_row ''q1'' 2 JNull ''bn1''"
  let ?db = "sample_db [?row]"
  let ?row' = "?row\<lparr>status := Retry_queued, attempt_count := 3, next_attempt_at := 1802000,
                      last_attempt_at := Some 1000\<rparr>"
  have d: "distinct (map item_id (message_queue ?db))"
    by (simp add: sample_db_def)
  note t = attempt_count_monotone_bounded [OF d, of ?env]
  have s: "send_to_wa ?env ?row sample_number
             \<lparr>template_name = ''promo'', language_code = ''en'', components = None\<rparr>
           = WAErr JNull ''timeout''"
    by (simp add: sample_send callWhatsAppApi_def)
  have "process_row ?env ?row ?db =
          (None, handleSendFailure 2000 ?row JNull ''bn1''
                   (log_effect (CallWhatsApp (idempotency_key ?row))
                      (mark_processing 1000 ''q1'' ?db)))"
    using process_row_send_failure [OF sample_joined sample_payload s, of ?db]
    by (simp add: sample_env_def sample_row_def)
  then have run: "snd (serve_queue ?env ?db) =
          handleSendFailure 2000 ?row JNull ''bn1''
                   (log_effect (CallWhatsApp (idempotency_key ?row))
                      (mark_processing 1000 ''q1'' ?db))"
    using sample_fetch [of "''q1''" 2 JNull "''bn1''"]
    by (simp add: serve_queue_def sample_env_def)
  have q: "message_queue (snd (serve_queue ?env ?db)) = [?row']"
    unfolding run
    by (simp add: handleSendFailure_requeue MAX_RETRIES_def backoff_values PERM_TEMPLATE_ERR_def
        is_rate_limit_code_def RATE_LIMIT_CODES_def sample_row_def sample_db_def)
  have "\<exists>r \<in> set (message_queue ?db). item_id r = item_id ?row'
          \<and> attempt_count r \<le> attempt_count ?row'
          \<and> (attempt_count r \<le> MAX_RETRIES \<longrightarrow> attempt_count ?row' \<le> MAX_RETRIES)"
    using t q by simp
  then have m: "\<exists>r \<in> set (message_queue ?db). item_id r = ''q1'' \<and> attempt_count r \<le> 3"
    by (auto simp: sample_row_def)
  have "MAX_RETRIES \<le> attempt_count (sample_row ''q1'' 3 JNull ''bn1'')"
    by (simp add: MAX_RETRIES_def sample_row_def)
  with t have "message_queue (handleSendFailure 2000 (sample_row ''q1'' 3 JNull ''bn1'') JNull ''bn1''
        (sample_db [sample_row ''q1'' 3 JNull ''bn1''])) =
      filter (\<lambda>r. item_id r \<noteq> item_id (sample_row ''q1'' 3 JNull ''bn1''))
        (message_queue (sample_db [sample_row ''q1'' 3 JNull ''bn1'']))"
    by blast
  then have e: "message_queue (handleSendFailure 2000 (sample_row ''q1'' 3 JNull ''bn1'') JNull ''bn1''
        (sample_db [sample_row ''q1'' 3 JNull ''bn1''])) = []"
    by (simp add: sample_db_def)
  from d q m e show ?thesis by simp
qed



section \<open>Properties of the round-robin assignment\<close>

text \<open>
  C8. When the lock procedure answers \<open>false\<close>, the handler answers
  \<open>RUNNING_ELSEWHERE\<close> whatever the fuel, so without entering the loop: no assignment
  call is made, nothing is assigned and the table is as it was.
\<close>

theorem lock_not_acquired:
  assumes "lock_error env = None" and "lock_data env = Some False"
  shows "assignment_run fuel env ps target cs =
           (Some (ErrorResponse ''RUNNING_ELSEWHERE'' 429), initial_state cs)
         \<and> rpc_calls (initial_state cs) = []
         \<and> assignedCount (initial_state cs) = 0
         \<and> conversations (initial_state cs) = cs"
  using assms by (simp add: assignment_run_def initial_state_def)

lemma load_roster_cached:
  assumes "agentCache st (conv_segment convo) = Some entry"
  shows "load_roster env ps k convo st = Inr (st, entry)"
  using assms by (simp add: load_roster_def)

lemma process_convo_selected:
  assumes "load_roster env ps (scanned st) convo (st\<lparr>scanned := scanned st + 1\<rparr>) = Inr (st1, (list, idx))"
    and "list \<noteq> []" and "idx < length list"
  shows "process_convo env ps convo st =
           commit_assignment env (scanned st) convo (Some (list ! idx))
             (st1\<lparr>agentCache := (agentCache st1)(conv_segment convo \<mapsto> (list, (idx + 1) mod length list))\<rparr>)"
  using assms by (simp add: process_convo_def select_agent_def Let_def)

lemma commit_assignment_state:
  "agentCache (result_state (commit_assignment env k convo (Some a) st)) = agentCache st"
  "assignees (result_state (commit_assignment env k convo (Some a) st)) = assignees st @ [a]"
  "scanned (result_state (commit_assignment env k convo (Some a) st)) = scanned st"
  by (simp_all add: commit_assignment_def result_state_def assignees_def push_failed_def Let_def
      split: rpc_outcome.split)

lemma commit_assignment_error:
  assumes "assign_outcome env k = RpcError msg"
  shows "commit_assignment env k convo (Some a) st =
           Continue (push_failed \<lparr>cid = conv_id convo, aid = Some a, reason = msg\<rparr>
             (st\<lparr>rpc_calls := rpc_calls st @
                         [\<lparr>p_actor_id = user_id env, p_conversation_id = conv_id convo,
                           p_new_assignee_id = a, p_reason = ''round-robin'',
                           p_version = version convo\<rparr>]\<rparr>))"
  using assms by (simp add: commit_assignment_def Let_def)

lemma load_roster_state:
  assumes "load_roster env ps k convo st = Inr (st1, entry)"
  shows "rpc_calls st1 = rpc_calls st" "scanned st1 = scanned st"
    "conversations st1 = conversations st"
    "agentCache st1 (conv_segment convo) = Some entry"
    "failedAssignments st1 = failedAssignments st" "assignedCount st1 = assignedCount st"
  using assms by (auto simp: load_roster_def Let_def split: option.splits)

lemma other_segment_cursor:
  assumes "conv_segment convo \<noteq> seg"
  shows "agentCache (result_state (process_convo env ps convo st)) seg = agentCache st seg"
proof (cases "load_roster env ps (scanned st) convo (st\<lparr>scanned := scanned st + 1\<rparr>)")
  case (Inl st1)
  then have "agentCache st1 = agentCache st"
    by (auto simp: load_roster_def push_failed_def Let_def split: option.splits)
  with Inl show ?thesis
    by (simp add: process_convo_def Let_def result_state_def)
next
  case (Inr x)
  obtain st1 list idx where x: "x = (st1, (list, idx))" by (cases x) auto
  have c: "agentCache st1 seg = agentCache st seg"
    using Inr assms unfolding x
    by (auto simp: load_roster_def Let_def split: option.splits)
  show ?thesis
  proof (cases "list = []")
    case True
    with Inr x c show ?thesis
      by (simp add: process_convo_def Let_def result_state_def push_failed_def)
  next
    case False
    with Inr x c assms show ?thesis
      by (simp add: process_convo_def Let_def result_state_def push_failed_def
          select_agent_def commit_assignment_def split: rpc_outcome.split)
  qed
qed

text \<open>
  C9. For a conversation whose segment has a roster that is not empty, the iteration
  is the assignment call made in a state where the cursor of the segment has already
  moved one place on; whatever the call answers, the cursor has moved exactly one place
  and the agent offered was the one at the old cursor. When the call fails, the
  conversation stays unassigned and the next conversation of the segment is offered the
  next agent of the rotation. A conversation of another segment leaves the cursor alone.
\<close>

theorem cursor_advances_before_commit:
  assumes "load_roster env ps (scanned st) convo (st\<lparr>scanned := scanned st + 1\<rparr>) = Inr (st1, (list, idx))"
    and "list \<noteq> []" and "idx < length list"
  shows "process_convo env ps convo st =
           commit_assignment env (scanned st) convo (Some (list ! idx))
             (st1\<lparr>agentCache := (agentCache st1)(conv_segment convo \<mapsto> (list, (idx + 1) mod length list))\<rparr>)
         \<and> agentCache (result_state (process_convo env ps convo st)) (conv_segment convo) =
             Some (list, (idx + 1) mod length list)
         \<and> assignees (result_state (process_convo env ps convo st)) = assignees st @ [list ! idx]
         \<and> (\<forall>msg. assign_outcome env (scanned st) = RpcError msg \<longrightarrow>
               (\<exists>st2. process_convo env ps convo st = Continue st2
                  \<and> conversations st2 = conversations st
                  \<and> (\<forall>c2. conv_segment c2 = conv_segment convo \<longrightarrow>
                        assignees (result_state (process_convo env ps c2 st2)) =
                          assignees st @ [list ! idx, list ! ((idx + 1) mod length list)])))
         \<and> (\<forall>other s. conv_segment other \<noteq> conv_segment convo \<longrightarrow>
               agentCache (result_state (process_convo env ps other s)) (conv_segment convo) =
                 agentCache s (conv_segment convo))"
proof -
  let ?cache = "(agentCache st1)(conv_segment convo \<mapsto> (list, (idx + 1) mod length list))"
  let ?st2 = "st1\<lparr>agentCache := ?cache\<rparr>"
  have p: "process_convo env ps convo st =
             commit_assignment env (scanned st) convo (Some (list ! idx)) ?st2"
    using assms by (rule process_convo_selected)
  have c: "agentCache (result_state (process_convo env ps convo st)) (conv_segment convo) =
             Some (list, (idx + 1) mod length list)"
    unfolding p by (simp add: commit_assignment_state)
  have a: "assignees (result_state (process_convo env ps convo st)) = assignees st @ [list ! idx]"
    unfolding p using load_roster_state(1) [OF assms(1)]
    by (simp add: commit_assignment_state) (simp add: assignees_def)
  have e: "\<exists>st2. process_convo env ps convo st = Continue st2
                  \<and> conversations st2 = conversations st
                  \<and> (\<forall>c2. conv_segment c2 = conv_segment convo \<longrightarrow>
                        assignees (result_state (process_convo env ps c2 st2)) =
                          assignees st @ [list ! idx, list ! ((idx + 1) mod length list)])"
    if err: "assign_outcome env (scanned st) = RpcError msg" for msg
  proof -
    let ?st3 = "push_failed \<lparr>cid = conv_id convo, aid = Some (list ! idx), reason = msg\<rparr>
             (?st2\<lparr>rpc_calls := rpc_calls ?st2 @
                         [\<lparr>p_actor_id = user_id env, p_conversation_id = conv_id convo,
                           p_new_assignee_id = list ! idx, p_reason = ''round-robin'',
                           p_version = version convo\<rparr>]\<rparr>)"
    have r: "process_convo env ps convo st = Continue ?st3"
      unfolding p using err by (rule commit_assignment_error)
    have t: "conversations ?st3 = conversations st"
      using load_roster_state(3) [OF assms(1)] by (simp add: push_failed_def)
    have n: "assignees (result_state (process_convo env ps c2 ?st3)) =
               assignees st @ [list ! idx, list ! ((idx + 1) mod length list)]"
      if same: "conv_segment c2 = conv_segment convo" for c2
    proof -
      have cached: "agentCache (?st3\<lparr>scanned := scanned ?st3 + 1\<rparr>) (conv_segment c2) =
                      Some (list, (idx + 1) mod length list)"
        using same by (simp add: push_failed_def)
      have l: "load_roster env ps (scanned ?st3) c2 (?st3\<lparr>scanned := scanned ?st3 + 1\<rparr>) =
                 Inr (?st3\<lparr>scanned := scanned ?st3 + 1\<rparr>, (list, (idx + 1) mod length list))"
        using cached by (rule load_roster_cached)
      have lt: "(idx + 1) mod length list < length list"
        using assms(2) by simp
      have "assignees (result_state (process_convo env ps c2 ?st3)) =
              assignees (?st3\<lparr>scanned := scanned ?st3 + 1\<rparr>) @ [list ! ((idx + 1) mod length list)]"
        unfolding process_convo_selected [OF l assms(2) lt]
        by (simp add: commit_assignment_state) (simp add: assignees_def)
      then show ?thesis
        using load_roster_state(1) [OF assms(1)] by (simp add: assignees_def push_failed_def)
    qed
    from r t n show ?thesis by blast
  qed
  have o: "agentCache (result_state (process_convo env ps other s)) (conv_segment convo) =
             agentCache s (conv_segment convo)"
    if "conv_segment other \<noteq> conv_segment convo" for other s
    using that by (rule other_segment_cursor)
  from p c a e o show ?thesis by blast
qed


lemma process_convo_shape:
  fixes env ps convo st
  defines "seg \<equiv> conv_segment convo"
    and "roster \<equiv> fetch_agents ps (conv_segment convo)"
    and "r \<equiv> process_convo env ps convo st"
  assumes ok: "cache_ok ps st"
  shows "scanned (result_state r) = scanned st + 1
       \<and> ((\<not> thrown r \<and> rpc_calls (result_state r) = rpc_calls st
            \<and> conversations (result_state r) = conversations st
            \<and> (agentCache (result_state r) = agentCache st
                \<or> agentCache (result_state r) = (agentCache st)(seg \<mapsto> ([], 0)) \<and> roster = [])
            \<and> (agentCache st seg = None \<and> agents_error env (scanned st) \<noteq> None \<or> roster = []))
         \<or> (\<exists>idx. idx < length roster
               \<and> (agentCache st seg = Some (roster, idx)
                   \<or> agentCache st seg = None \<and> idx = 0 \<and> agents_error env (scanned st) = None)
               \<and> agentCache (result_state r) =
                   (agentCache st)(seg \<mapsto> (roster, (idx + 1) mod length roster))
               \<and> rpc_calls (result_state r) = rpc_calls st @ [call_for env convo (roster ! idx)]
               \<and> (thrown r \<longleftrightarrow> assign_outcome env (scanned st) = RpcThrew)
               \<and> conversations (result_state r) =
                   (if assign_outcome env (scanned st) = RpcOk
                    then assign_conversation (conv_id convo) (roster ! idx) (conversations st)
                    else conversations st)))"
proof (cases "agentCache st (conv_segment convo)")
  case None
  show ?thesis
  proof (cases "agents_error env (scanned st)")
    case (Some msg)
    with None show ?thesis
      unfolding r_def seg_def roster_def
      by (simp add: process_convo_def load_roster_def Let_def result_state_def push_failed_def)
  next
    case noerr: None
    show ?thesis
    proof (cases "fetch_agents ps (conv_segment convo) = []")
      case True
      with None noerr show ?thesis
        unfolding r_def seg_def roster_def
        by (simp add: process_convo_def load_roster_def Let_def result_state_def push_failed_def)
    next
      case False
      with None noerr show ?thesis
        unfolding r_def seg_def roster_def
        by (cases "assign_outcome env (scanned st)")
          (simp_all add: process_convo_def load_roster_def Let_def result_state_def
            push_failed_def select_agent_def commit_assignment_def call_for_def)
    qed
  qed
next
  case (Some entry)
  obtain list idx where entry: "entry = (list, idx)" by (cases entry)
  from ok Some entry have l: "list = fetch_agents ps (conv_segment convo)"
    and i: "list = [] \<or> idx < length list"
    unfolding cache_ok_def by blast+
  show ?thesis
  proof (cases "list = []")
    case True
    with Some entry l show ?thesis
      unfolding r_def seg_def roster_def
      by (simp add: process_convo_def load_roster_def Let_def result_state_def push_failed_def)
  next
    case False
    with i have "idx < length list" by simp
    with Some entry l False show ?thesis
      unfolding r_def seg_def roster_def
      by (cases "assign_outcome env (scanned st)")
        (auto simp add: process_convo_def load_roster_def Let_def result_state_def
          push_failed_def select_agent_def commit_assignment_def call_for_def)
  qed
qed


lemma cache_ok_step:
  assumes "cache_ok ps st"
  shows "cache_ok ps (result_state (process_convo env ps convo st))"
proof -
  have m: "(i + 1) mod length xs < length xs" if "i < length xs" for i :: nat and xs :: "string list"
    using that by (cases xs) auto
  let ?r = "process_convo env ps convo st"
  let ?seg = "conv_segment convo"
  let ?roster = "fetch_agents ps ?seg"
  from process_convo_shape [OF assms, of env convo]
  consider "agentCache (result_state ?r) = agentCache st"
    | "agentCache (result_state ?r) = (agentCache st)(?seg \<mapsto> ([], 0))" "?roster = []"
    | idx where "idx < length ?roster"
        "agentCache (result_state ?r) = (agentCache st)(?seg \<mapsto> (?roster, (idx + 1) mod length ?roster))"
    by blast
  then show ?thesis
  proof cases
    case 1
    with assms show ?thesis by (simp add: cache_ok_def)
  next
    case 2
    with assms show ?thesis by (simp add: cache_ok_def)
  next
    case 3
    with assms m [OF 3(1)] show ?thesis by (simp add: cache_ok_def)
  qed
qed

lemma process_chunk_invariant:
  assumes "I st" and "\<forall>c \<in> set chunk. Q c"
    and "\<And>s c. I s \<Longrightarrow> Q c \<Longrightarrow> I (result_state (process_convo env ps c s))"
  shows "I (result_state (process_chunk env ps chunk st))"
  using assms(1,2)
proof (induction chunk arbitrary: st)
  case Nil
  then show ?case by (simp add: result_state_def)
next
  case (Cons c rest)
  have "I (result_state (process_convo env ps c st))"
    using Cons.prems assms(3) by simp
  then show ?case
    using Cons.IH Cons.prems(2)
    by (cases "process_convo env ps c st") (simp_all add: result_state_def)
qed

lemma chunk_loop_invariant:
  assumes "I st"
    and "\<And>s c. I s \<Longrightarrow> c \<in> set (fetch_conversations target (conversations s)) \<Longrightarrow> Q c"
    and "\<And>s c. I s \<Longrightarrow> Q c \<Longrightarrow> I (result_state (process_convo env ps c s))"
  shows "I (snd (chunk_loop fuel env ps target i st))"
  using assms(1)
proof (induction fuel arbitrary: i st)
  case 0
  then show ?case by simp
next
  case (Suc fuel)
  let ?chunk = "fetch_conversations target (conversations st)"
  have q: "\<forall>c \<in> set ?chunk. Q c"
    using assms(2) Suc.prems by blast
  have inv: "I (result_state (process_chunk env ps ?chunk st))"
    using Suc.prems q assms(3) by (rule process_chunk_invariant)
  show ?case
  proof (cases "process_chunk env ps ?chunk st")
    case (Continue st1)
    with inv have "I st1" by (simp add: result_state_def)
    with Suc.IH Continue Suc.prems show ?thesis
      by (auto simp: Let_def split: option.splits)
  next
    case (Thrown st1)
    with inv have "I st1" by (simp add: result_state_def)
    with Suc.prems Thrown show ?thesis
      by (auto simp: Let_def split: option.splits)
  qed
qed

lemma assignment_run_invariant:
  assumes "I (initial_state cs)"
    and "\<And>s c. I s \<Longrightarrow> c \<in> set (fetch_conversations target (conversations s)) \<Longrightarrow> Q c"
    and "\<And>s c. I s \<Longrightarrow> Q c \<Longrightarrow> I (result_state (process_convo env ps c s))"
  shows "I (snd (assignment_run fuel env ps target cs))"
proof (cases "lock_error env = None \<and> lock_data env = Some True")
  case True
  then have "assignment_run fuel env ps target cs =
               chunk_loop fuel env ps target 0 (initial_state cs)"
    by (simp add: assignment_run_def)
  moreover have "I (snd (chunk_loop fuel env ps target 0 (initial_state cs)))"
    using assms by (rule chunk_loop_invariant)
  ultimately show ?thesis by simp
next
  case False
  then have "snd (assignment_run fuel env ps target cs) = initial_state cs"
    by (auto simp: assignment_run_def split: option.splits bool.splits)
  with assms(1) show ?thesis by simp
qed

lemma fetch_conversations_subset:
  "set (fetch_conversations target cs) \<subseteq> {c \<in> set cs. unassigned_open target c}"
proof -
  have "set (fetch_conversations target cs) \<subseteq>
          set (sort_key conv_created_at (filter (unassigned_open target) cs))"
    unfolding fetch_conversations_def by (rule set_take_subset)
  then show ?thesis by auto
qed

lemma fetch_agents_set: "set (fetch_agents ps seg) = profile_id ` {p \<in> set ps. eligible seg p}"
  by (auto simp: fetch_agents_def)

lemma keys_assign_conversation:
  "map (\<lambda>c. (conv_id c, conv_segment c)) (assign_conversation i a cs) =
     map (\<lambda>c. (conv_id c, conv_segment c)) cs"
  by (induction cs) (simp_all add: assign_conversation_def)


lemma eligible_call_step:
  fixes cs :: "conversation list" and ps :: "profile list"
  defines "good \<equiv> (\<lambda>call. \<exists>c \<in> set cs. \<exists>p \<in> set ps.
             conv_id c = p_conversation_id call \<and> profile_id p = p_new_assignee_id call
             \<and> eligible (conv_segment c) p)"
  assumes ok: "cache_ok ps st"
    and calls: "\<forall>call \<in> set (rpc_calls st). good call"
    and q: "(conv_id convo, conv_segment convo) \<in> (\<lambda>c. (conv_id c, conv_segment c)) ` set cs"
  shows "\<forall>call \<in> set (rpc_calls (result_state (process_convo env ps convo st))). good call"
proof -
  let ?r = "process_convo env ps convo st"
  let ?roster = "fetch_agents ps (conv_segment convo)"
  from process_convo_shape [OF ok, of env convo]
  consider "rpc_calls (result_state ?r) = rpc_calls st"
    | idx where "idx < length ?roster"
        "rpc_calls (result_state ?r) = rpc_calls st @ [call_for env convo (?roster ! idx)]"
    by blast
  then show ?thesis
  proof cases
    case 1
    with calls show ?thesis by simp
  next
    case 2
    from 2(1) have "?roster ! idx \<in> set ?roster" by simp
    then obtain p where p: "p \<in> set ps" "eligible (conv_segment convo) p"
      "profile_id p = ?roster ! idx"
      unfolding fetch_agents_set by auto
    from q obtain c where c: "c \<in> set cs" "conv_id c = conv_id convo"
      "conv_segment c = conv_segment convo" by auto
    have "good (call_for env convo (?roster ! idx))"
      unfolding good_def using p c
      by (intro bexI [of _ c] bexI [of _ p]) (simp_all add: call_for_def)
    with calls 2(2) show ?thesis by simp
  qed
qed

lemma conversations_keys_step:
  assumes "cache_ok ps st"
  shows "map (\<lambda>c. (conv_id c, conv_segment c))
           (conversations (result_state (process_convo env ps convo st))) =
         map (\<lambda>c. (conv_id c, conv_segment c)) (conversations st)"
proof -
  from process_convo_shape [OF assms, of env convo]
  have "conversations (result_state (process_convo env ps convo st)) = conversations st
      \<or> (\<exists>a. conversations (result_state (process_convo env ps convo st)) =
               assign_conversation (conv_id convo) a (conversations st))"
    by (cases "assign_outcome env (scanned st) = RpcOk") auto
  then show ?thesis by (auto simp: keys_assign_conversation)
qed

text \<open>
  C10. The roster of a segment is made of the ids of the profiles that are active,
  present today, of that segment and of role \<open>agent\<close> or \<open>team_leader\<close>; at every point
  of a run (whatever the fuel) every assignment call made so far names a conversation of
  the table and such a profile of its segment; with distinct profile ids, a profile of
  another role is never selected.
\<close>

theorem roster_roles_only:
  fixes fuel env ps target cs
  defines "st \<equiv> snd (assignment_run fuel env ps target cs)"
  shows "(\<forall>seg. set (fetch_agents ps seg) = profile_id ` {p \<in> set ps. eligible seg p})
       \<and> (\<forall>call \<in> set (rpc_calls st). \<exists>c \<in> set cs. \<exists>p \<in> set ps.
             conv_id c = p_conversation_id call \<and> profile_id p = p_new_assignee_id call
             \<and> role p \<in> {''agent'', ''team_leader''} \<and> is_active p \<and> present_today p
             \<and> profile_segment p = conv_segment c)
       \<and> (distinct (map profile_id ps) \<longrightarrow>
            (\<forall>p \<in> set ps. role p \<notin> {''agent'', ''team_leader''} \<longrightarrow>
               profile_id p \<notin> set (assignees st)))"
proof -
  let ?keys = "map (\<lambda>c. (conv_id c, conv_segment c))"
  let ?good = "\<lambda>call. \<exists>c \<in> set cs. \<exists>p \<in> set ps.
             conv_id c = p_conversation_id call \<and> profile_id p = p_new_assignee_id call
             \<and> eligible (conv_segment c) p"
  let ?I = "\<lambda>s. cache_ok ps s \<and> ?keys (conversations s) = ?keys cs
             \<and> (\<forall>call \<in> set (rpc_calls s). ?good call)"
  let ?Q = "\<lambda>c. (conv_id c, conv_segment c) \<in> (\<lambda>c. (conv_id c, conv_segment c)) ` set cs"
  have init: "?I (initial_state cs)"
    by (simp add: initial_state_def cache_ok_def)
  have sel: "?Q c" if "?I s" "c \<in> set (fetch_conversations target (conversations s))" for s c
  proof -
    from that(2) have "c \<in> set (conversations s)"
      using fetch_conversations_subset [of target "conversations s"] by auto
    then have "(conv_id c, conv_segment c) \<in> set (?keys (conversations s))" by force
    with that(1) show ?thesis by simp
  qed
  have step: "?I (result_state (process_convo env ps c s))" if "?I s" "?Q c" for s c
    using that cache_ok_step [of ps s env c] conversations_keys_step [of ps s env c]
      eligible_call_step [of ps s cs c env]
    by simp
  have "?I st"
    unfolding st_def
    using init sel step by (rule assignment_run_invariant [where I = ?I and Q = ?Q])
  then have calls: "\<forall>call \<in> set (rpc_calls st). ?good call" by simp
  have a: "\<forall>seg. set (fetch_agents ps seg) = profile_id ` {p \<in> set ps. eligible seg p}"
    by (simp add: fetch_agents_set)
  have b: "\<forall>call \<in> set (rpc_calls st). \<exists>c \<in> set cs. \<exists>p \<in> set ps.
             conv_id c = p_conversation_id call \<and> profile_id p = p_new_assignee_id call
             \<and> role p \<in> {''agent'', ''team_leader''} \<and> is_active p \<and> present_today p
             \<and> profile_segment p = conv_segment c"
    using calls unfolding eligible_def by blast
  have c: "profile_id p \<notin> set (assignees st)"
    if d: "distinct (map profile_id ps)" and p: "p \<in> set ps"
      and r: "role p \<notin> {''agent'', ''team_leader''}" for p
  proof
    assume "profile_id p \<in> set (assignees st)"
    then obtain call where "call \<in> set (rpc_calls st)" "p_new_assignee_id call = profile_id p"
      unfolding assignees_def by auto
    with b obtain p' where p': "p' \<in> set ps" "profile_id p' = profile_id p"
      "role p' \<in> {''agent'', ''team_leader''}" by metis
    from d have "inj_on profile_id (set ps)" by (simp add: distinct_map)
    with p p'(1,2) have "p' = p" by (auto dest: inj_onD)
    with p'(3) r show False by simp
  qed
  from a b c show ?thesis by blast
qed



subsection \<open>The theorems at the sample data\<close>

lemmas sched_sample_defs = sample_profile_def sample_conversation_def sample_sched_env_def

lemmas sched_defs = assignment_run_def initial_state_def fetch_conversations_def
  unassigned_open_def CHUNK_SIZE_def process_convo_def load_roster_def select_agent_def
  commit_assignment_def push_failed_def fetch_agents_def eligible_def assign_conversation_def
  summary_def Let_def

lemma sample_roster:
  "fetch_agents
     [sample_profile ''a'' ''agent'' (Some 5), sample_profile ''m'' ''admin'' None,
      sample_profile ''b'' ''team_leader'' None] ''sales'' = [''b'', ''a'']"
  by (simp add: fetch_agents_def eligible_def sched_sample_defs)

lemma sample_run:
  "(\<lambda>(resp, st). (resp, assignees st, map assigned_agent_id (conversations st)))
     (assignment_run 1 (sample_sched_env True (\<lambda>k. None) (\<lambda>k. RpcOk))
       [sample_profile ''a'' ''agent'' (Some 5), sample_profile ''m'' ''admin'' None,
        sample_profile ''b'' ''team_leader'' None] None
       [sample_conversation ''c1'' 1, sample_conversation ''c2'' 2, sample_conversation ''c3'' 3])
   = (Some (Success 3 0 None), [''b'', ''a'', ''b''], [Some ''b'', Some ''a'', Some ''b''])"
  by (simp add: sched_defs sched_sample_defs assignees_def)


theorem lock_not_acquired_witness:
  "lock_error (sample_sched_env False (\<lambda>k. None) (\<lambda>k. RpcOk)) = None
   \<and> lock_data (sample_sched_env False (\<lambda>k. None) (\<lambda>k. RpcOk)) = Some False
   \<and> assignment_run 0 (sample_sched_env False (\<lambda>k. None) (\<lambda>k. RpcOk))
        [sample_profile ''a'' ''agent'' None] None [sample_conversation ''c1'' 1]
      = (Some (ErrorResponse ''RUNNING_ELSEWHERE'' 429),
         initial_state [sample_conversation ''c1'' 1])
   \<and> rpc_calls (initial_state [sample_conversation ''c1'' 1]) = []"
proof -
  let ?env = "sample_sched_env False (\<lambda>k. None) (\<lambda>k. RpcOk)"
  have e: "lock_error ?env = None" and d: "lock_data ?env = Some False"
    by (simp_all add: sample_sched_env_def)
  from lock_not_acquired [OF e d, of 0 "[sample_profile ''a'' ''agent'' None]" None
      "[sample_conversation ''c1'' 1]"] e d
  show ?thesis by simp
qed

theorem cursor_advances_before_commit_witness:
  "load_roster (sample_sched_env True (\<lambda>k. None) (\<lambda>k. RpcError ''version conflict''))
     [sample_profile ''a'' ''agent'' (Some 5), sample_profile ''b'' ''agent'' None] 0
     (sample_conversation ''c1'' 1)
     ((initial_state [sample_conversation ''c1'' 1, sample_conversation ''c2'' 2])\<lparr>scanned := 1\<rparr>)
   = Inr ((initial_state [sample_conversation ''c1'' 1, sample_conversation ''c2'' 2])
            \<lparr>scanned := 1, agentCache := [''sales'' \<mapsto> ([''b'', ''a''], 0)]\<rparr>,
          ([''b'', ''a''], 0))
   \<and> agentCache (result_state (process_convo
         (sample_sched_env True (\<lambda>k. None) (\<lambda>k. RpcError ''version conflict''))
         [sample_profile ''a'' ''agent'' (Some 5), sample_profile ''b'' ''agent'' None]
         (sample_conversation ''c1'' 1)
         (initial_state [sample_conversation ''c1'' 1, sample_conversation ''c2'' 2])))
       ''sales'' = Some ([''b'', ''a''], 1)
   \<and> assignees (result_state (process_convo
         (sample_sched_env True (\<lambda>k. None) (\<lambda>k. RpcError ''version conflict''))
         [sample_profile ''a'' ''agent'' (Some 5), sample_profile ''b'' ''agent'' None]
         (sample_conversation ''c2'' 2)
         (result_state (process_convo
           (sample_sched_env True (\<lambda>k. None) (\<lambda>k. RpcError ''version conflict''))
           [sample_profile ''a'' ''agent'' (Some 5), sample_profile ''b'' ''agent'' None]
           (sample_conversation ''c1'' 1)
           (initial_state [sample_conversation ''c1'' 1, sample_conversation ''c2'' 2])))))
      = [''b'', ''a'']"
proof -
  let ?env = "sample_sched_env True (\<lambda>k. None) (\<lambda>k. RpcError ''version conflict'')"
  let ?ps = "[sample_profile ''a'' ''agent'' (Some 5), sample_profile ''b'' ''agent'' None]"
  let ?c1 = "sample_conversation ''c1'' 1"
  let ?c2 = "sample_conversation ''c2'' 2"
  let ?st = "initial_state [?c1, ?c2]"
  let ?st1 = "?st\<lparr>scanned := 1, agentCache := [''sales'' \<mapsto> ([''b'', ''a''], 0)]\<rparr>"
  have seg: "conv_segment ?c1 = ''sales''" "conv_segment ?c2 = ''sales''"
    by (simp_all add: sample_conversation_def)
  have l: "load_roster ?env ?ps (scanned ?st) ?c1 (?st\<lparr>scanned := scanned ?st + 1\<rparr>) =
             Inr (?st1, ([''b'', ''a''], 0))"
    by (simp add: load_roster_def fetch_agents_def eligible_def initial_state_def
        sched_sample_defs Let_def)
  have n: "[''b'', ''a''] \<noteq> ([] :: string list)" and i: "0 < length [''b'', ''a'']"
    by simp_all
  note t = cursor_advances_before_commit [OF l n i]
  have o: "assign_outcome ?env (scanned ?st) = RpcError ''version conflict''"
    by (simp add: sample_sched_env_def)
  from t have "agentCache (result_state (process_convo ?env ?ps ?c1 ?st)) (conv_segment ?c1) =
                    Some ([''b'', ''a''], (0 + 1) mod length [''b'', ''a''])"
    by blast
  then have a: "agentCache (result_state (process_convo ?env ?ps ?c1 ?st)) ''sales'' =
                    Some ([''b'', ''a''], 1)"
    by (simp add: seg)
  from t o obtain st2 where st2: "process_convo ?env ?ps ?c1 ?st = Continue st2"
    and nx: "\<forall>c2. conv_segment c2 = conv_segment ?c1 \<longrightarrow>
               assignees (result_state (process_convo ?env ?ps c2 st2)) =
                 assignees ?st @ [[''b'', ''a''] ! 0, [''b'', ''a''] ! ((0 + 1) mod length [''b'', ''a''])]"
    by blast
  from nx seg have "assignees (result_state (process_convo ?env ?ps ?c2 st2)) =
                 assignees ?st @ [[''b'', ''a''] ! 0, [''b'', ''a''] ! ((0 + 1) mod length [''b'', ''a''])]"
    by simp
  then have b: "assignees (result_state (process_convo ?env ?ps ?c2
                  (result_state (process_convo ?env ?ps ?c1 ?st)))) = [''b'', ''a'']"
    using st2 by (simp add: result_state_def assignees_def initial_state_def)
  from l a b show ?thesis by (simp add: initial_state_def)
qed

theorem roster_roles_only_witness:
  "assignees (snd (assignment_run 1 (sample_sched_env True (\<lambda>k. None) (\<lambda>k. RpcOk))
       [sample_profile ''a'' ''agent'' (Some 5), sample_profile ''m'' ''admin'' None,
        sample_profile ''b'' ''team_leader'' None] None
       [sample_conversation ''c1'' 1, sample_conversation ''c2'' 2, sample_conversation ''c3'' 3]))
     = [''b'', ''a'', ''b'']
   \<and> ''m'' \<notin> set (assignees (snd (assignment_run 1
       (sample_sched_env True (\<lambda>k. None) (\<lambda>k. RpcOk))
       [sample_profile ''a'' ''agent'' (Some 5), sample_profile ''m'' ''admin'' None,
        sample_profile ''b'' ''team_leader'' None] None
       [sample_conversation ''c1'' 1, sample_conversation ''c2'' 2,
        sample_conversation ''c3'' 3])))"
proof -
  let ?env = "sample_sched_env True (\<lambda>k. None) (\<lambda>k. RpcOk)"
  let ?ps = "[sample_profile ''a'' ''agent'' (Some 5), sample_profile ''m'' ''admin'' None,
        sample_profile ''b'' ''team_leader'' None]"
  let ?cs = "[sample_conversation ''c1'' 1, sample_conversation ''c2'' 2, sample_conversation ''c3'' 3]"
  let ?st = "snd (assignment_run 1 ?env ?ps None ?cs)"
  from sample_run have a: "assignees ?st = [''b'', ''a'', ''b'']"
    by (simp add: case_prod_unfold)
  have d: "distinct (map profile_id ?ps)"
    by (simp add: sample_profile_def)
  have m: "sample_profile ''m'' ''admin'' None \<in> set ?ps"
    "role (sample_profile ''m'' ''admin'' None) \<notin> {''agent'', ''team_leader''}"
    by (simp_all add: sample_profile_def)
  from roster_roles_only [of ?ps 1 ?env None ?cs] d m
  have "profile_id (sample_profile ''m'' ''admin'' None) \<notin> set (assignees ?st)"
    by blast
  then have "''m'' \<notin> set (assignees ?st)"
    by (simp add: sample_profile_def)
  with a show ?thesis by simp
qed

section \<open>The claim step and the joined context\<close>








section \<open>Exceptions inside a batch\<close>

lemma process_rows_append:
  "process_rows env (xs @ ys) db =
     (case process_rows env xs db of
        (Some e, d) \<Rightarrow> (Some e, d)
      | (None, d) \<Rightarrow> process_rows env ys d)"
  by (induction xs arbitrary: db) (auto split: prod.splits option.splits)

lemma process_chunk_append:
  "process_chunk env ps (xs @ ys) st =
     (case process_chunk env ps xs st of
        Thrown s \<Rightarrow> Thrown s
      | Continue s \<Rightarrow> process_chunk env ps ys s)"
  by (induction xs arbitrary: st) (auto split: exec.splits)

lemma process_row_throws:
  "fst (process_row env row db) = Some e \<longleftrightarrow>
     (\<exists>tpl biz b. joined_data row = Some (tpl, biz, b) \<and> build_payload tpl row = Inl e)"
  by (auto simp: process_row_def Let_def split: option.splits sum.splits wa_res.splits)

lemma process_convo_throws:
  assumes "cache_ok ps st" and "thrown (process_convo env ps c st)"
  shows "assign_outcome env (scanned st) = RpcThrew"
  using process_convo_shape [OF assms(1), of env c] assms(2) by auto

text \<open>
  C4, as the handlers have it. Neither loop traps an exception of one item. In the
  processor an iteration throws exactly when building the payload throws; the exception
  leaves the handler, the item stays claimed and no later item of the batch is looked at.
  In the assignment run an iteration throws only when the assignment call itself throws;
  the \<open>try\<close> around the whole loop answers \<open>UNEXPECTED_ERROR\<close> and no later
  conversation is looked at. A fetch that fails ends either run with its own error.
\<close>

theorem exception_ends_the_run:
  "(queue_fetch_error env = None \<and> fetch_queue (now_fetch env) db = before @ row # rest
      \<and> process_rows env before db = (None, db1) \<and> process_row env row db1 = (Some e, db2)
      \<longrightarrow> serve_queue env db = (Rejected e, db2))
   \<and> (\<forall>e. fst (process_row env row db) = Some e \<longleftrightarrow>
          (\<exists>tpl biz b. joined_data row = Some (tpl, biz, b) \<and> build_payload tpl row = Inl e))
   \<and> (queue_fetch_error env \<noteq> None \<longrightarrow>
          serve_queue env db = (Respond ''QUEUE_FETCH_ERROR'' 500 None, db))
   \<and> (convos_error senv i = None
        \<and> fetch_conversations target (conversations st) = cbefore @ c # crest
        \<and> process_chunk senv ps cbefore st = Continue st1
        \<and> process_convo senv ps c st1 = Thrown st2
      \<longrightarrow> chunk_loop (Suc fuel) senv ps target i st =
            (Some (ErrorResponse ''UNEXPECTED_ERROR'' 500), st2))
   \<and> (cache_ok ps st \<and> thrown (process_convo senv ps c st)
      \<longrightarrow> assign_outcome senv (scanned st) = RpcThrew)
   \<and> (convos_error senv i \<noteq> None \<longrightarrow>
          chunk_loop (Suc fuel) senv ps target i st = (Some (ErrorResponse ''DB_ERROR'' 500), st))"
proof (intro conjI impI allI)
  assume "queue_fetch_error env = None \<and> fetch_queue (now_fetch env) db = before @ row # rest
      \<and> process_rows env before db = (None, db1) \<and> process_row env row db1 = (Some e, db2)"
  then have a: "queue_fetch_error env = None"
    and f: "fetch_queue (now_fetch env) db = before @ row # rest"
    and b: "process_rows env before db = (None, db1)"
    and r: "process_row env row db1 = (Some e, db2)"
    by simp_all
  have "process_rows env (before @ row # rest) db = (Some e, db2)"
    using b r by (simp add: process_rows_append)
  then show "serve_queue env db = (Rejected e, db2)"
    using a f by (simp add: serve_queue_def)
next
  fix e
  show "fst (process_row env row db) = Some e \<longleftrightarrow>
          (\<exists>tpl biz b. joined_data row = Some (tpl, biz, b) \<and> build_payload tpl row = Inl e)"
    by (rule process_row_throws)
next
  assume "queue_fetch_error env \<noteq> None"
  then show "serve_queue env db = (Respond ''QUEUE_FETCH_ERROR'' 500 None, db)"
    by (auto simp: serve_queue_def respond_def)
next
  assume "convos_error senv i = None
        \<and> fetch_conversations target (conversations st) = cbefore @ c # crest
        \<and> process_chunk senv ps cbefore st = Continue st1
        \<and> process_convo senv ps c st1 = Thrown st2"
  then have a: "convos_error senv i = None"
    and f: "fetch_conversations target (conversations st) = cbefore @ c # crest"
    and b: "process_chunk senv ps cbefore st = Continue st1"
    and r: "process_convo senv ps c st1 = Thrown st2"
    by simp_all
  have "process_chunk senv ps (cbefore @ c # crest) st = Thrown st2"
    using b r by (simp add: process_chunk_append)
  then show "chunk_loop (Suc fuel) senv ps target i st =
            (Some (ErrorResponse ''UNEXPECTED_ERROR'' 500), st2)"
    using a f by simp
next
  assume "cache_ok ps st \<and> thrown (process_convo senv ps c st)"
  then show "assign_outcome senv (scanned st) = RpcThrew"
    using process_convo_throws by blast
next
  assume "convos_error senv i \<noteq> None"
  then show "chunk_loop (Suc fuel) senv ps target i st = (Some (ErrorResponse ''DB_ERROR'' 500), st)"
    by auto
qed


lemma two_rows_fetch:
  "fetch_queue 1000
     (sample_db [sample_row ''q1'' 0 (JObj [(''body'', JStr ''x'')]) ''bn1'',
                 (sample_row ''q2'' 0 JNull ''bn1'')\<lparr>created_at := 20\<rparr>])
   = [sample_row ''q1'' 0 (JObj [(''body'', JStr ''x'')]) ''bn1'',
      (sample_row ''q2'' 0 JNull ''bn1'')\<lparr>created_at := 20\<rparr>]"
  by (simp add: fetch_queue_def selectable_def inner_joined_def BATCH_SIZE_def sample_defs)

lemma malformed_variables_throw:
  "build_payload sample_template (sample_row i n (JObj [(''body'', JStr ''x'')]) b) = Inl TypeError"
  by (simp add: build_payload_def buildTemplateComponents_def orig_components_def
      header_given_def lookup_def sample_defs)

lemma malformed_row_throws:
  "process_row env (sample_row ''q1'' 0 (JObj [(''body'', JStr ''x'')]) ''bn1'') db =
     (Some TypeError, mark_processing (now_mark env ''q1'') ''q1'' db)"
  using sample_joined [of "''q1''" 0 "JObj [(''body'', JStr ''x'')]"]
    malformed_variables_throw [of "''q1''" 0 "''bn1''"]
  by (simp add: process_row_def Let_def) (simp add: sample_row_def)

text \<open>
  C4 as stated fails: of two due items, the first has template variables whose \<open>body\<close>
  is a string. Building its payload throws, the run ends with that exception, and the
  second item is left as it was.
\<close>

theorem batch_continues_counterexample:
  "fetch_queue 1000
     (sample_db [sample_row ''q1'' 0 (JObj [(''body'', JStr ''x'')]) ''bn1'',
                 (sample_row ''q2'' 0 JNull ''bn1'')\<lparr>created_at := 20\<rparr>])
   = [sample_row ''q1'' 0 (JObj [(''body'', JStr ''x'')]) ''bn1'',
      (sample_row ''q2'' 0 JNull ''bn1'')\<lparr>created_at := 20\<rparr>]
   \<and> fst (serve_queue (sample_env (FetchThrew ''timeout''))
        (sample_db [sample_row ''q1'' 0 (JObj [(''body'', JStr ''x'')]) ''bn1'',
                    (sample_row ''q2'' 0 JNull ''bn1'')\<lparr>created_at := 20\<rparr>]))
      = Rejected TypeError
   \<and> message_queue (snd (serve_queue (sample_env (FetchThrew ''timeout''))
        (sample_db [sample_row ''q1'' 0 (JObj [(''body'', JStr ''x'')]) ''bn1'',
                    (sample_row ''q2'' 0 JNull ''bn1'')\<lparr>created_at := 20\<rparr>])))
      = [(sample_row ''q1'' 0 (JObj [(''body'', JStr ''x'')]) ''bn1'')
           \<lparr>status := Processing, last_attempt_at := Some 1000\<rparr>,
         (sample_row ''q2'' 0 JNull ''bn1'')\<lparr>created_at := 20\<rparr>]
   \<and> effects (snd (serve_queue (sample_env (FetchThrew ''timeout''))
        (sample_db [sample_row ''q1'' 0 (JObj [(''body'', JStr ''x'')]) ''bn1'',
                    (sample_row ''q2'' 0 JNull ''bn1'')\<lparr>created_at := 20\<rparr>])))
      = [MarkProcessing ''q1'' 1000]"
proof -
  let ?env = "sample_env (FetchThrew ''timeout'')"
  let ?r1 = "sample_row ''q1'' 0 (JObj [(''body'', JStr ''x'')]) ''bn1''"
  let ?r2 = "(sample_row ''q2'' 0 JNull ''bn1'')\<lparr>created_at := 20\<rparr>"
  let ?db = "sample_db [?r1, ?r2]"
  have s: "serve_queue ?env ?db = (Rejected TypeError, mark_processing 1000 ''q1'' ?db)"
    using two_rows_fetch malformed_row_throws [of ?env ?db]
    by (simp add: serve_queue_def sample_env_def)
  have q: "message_queue (mark_processing 1000 ''q1'' ?db) =
             [?r1\<lparr>status := Processing, last_attempt_at := Some 1000\<rparr>, ?r2]"
    by (simp add: sample_db_def sample_row_def)
  have e: "effects (mark_processing 1000 ''q1'' ?db) = [MarkProcessing ''q1'' 1000]"
    by (simp add: sample_db_def)
  from two_rows_fetch s q e show ?thesis by simp
qed

lemma rpc_throws_on_first:
  "process_convo (sample_sched_env True (\<lambda>k. None) (\<lambda>k. if k = 0 then RpcThrew else RpcOk))
     [sample_profile ''a'' ''agent'' (Some 5), sample_profile ''b'' ''agent'' None]
     (sample_conversation ''c1'' 1)
     (initial_state [sample_conversation ''c1'' 1, sample_conversation ''c2'' 2])
   = Thrown ((initial_state [sample_conversation ''c1'' 1, sample_conversation ''c2'' 2])
       \<lparr>scanned := 1, agentCache := [''sales'' \<mapsto> ([''b'', ''a''], 1)],
        rpc_calls := [call_for (sample_sched_env True (\<lambda>k. None)
                         (\<lambda>k. if k = 0 then RpcThrew else RpcOk))
                       (sample_conversation ''c1'' 1) ''b'']\<rparr>)"
  by (simp add: sched_defs sched_sample_defs call_for_def)

theorem exception_ends_the_run_witness:
  "serve_queue (sample_env (FetchThrew ''timeout''))
     (sample_db [sample_row ''q1'' 0 (JObj [(''body'', JStr ''x'')]) ''bn1'',
                 (sample_row ''q2'' 0 JNull ''bn1'')\<lparr>created_at := 20\<rparr>])
   = (Rejected TypeError,
      mark_processing 1000 ''q1''
        (sample_db [sample_row ''q1'' 0 (JObj [(''body'', JStr ''x'')]) ''bn1'',
                    (sample_row ''q2'' 0 JNull ''bn1'')\<lparr>created_at := 20\<rparr>]))
   \<and> (\<lambda>(resp, st). (resp, map p_conversation_id (rpc_calls st)))
        (chunk_loop (Suc 0)
          (sample_sched_env True (\<lambda>k. None) (\<lambda>k. if k = 0 then RpcThrew else RpcOk))
          [sample_profile ''a'' ''agent'' (Some 5), sample_profile ''b'' ''agent'' None] None 0
          (initial_state [sample_conversation ''c1'' 1, sample_conversation ''c2'' 2]))
      = (Some (ErrorResponse ''UNEXPECTED_ERROR'' 500), [''c1''])"
proof -
  let ?env = "sample_env (FetchThrew ''timeout'')"
  let ?r1 = "sample_row ''q1'' 0 (JObj [(''body'', JStr ''x'')]) ''bn1''"
  let ?r2 = "(sample_row ''q2'' 0 JNull ''bn1'')\<lparr>created_at := 20\<rparr>"
  let ?db = "sample_db [?r1, ?r2]"
  let ?senv = "sample_sched_env True (\<lambda>k. None) (\<lambda>k. if k = 0 then RpcThrew else RpcOk)"
  let ?ps = "[sample_profile ''a'' ''agent'' (Some 5), sample_profile ''b'' ''agent'' None]"
  let ?c1 = "sample_conversation ''c1'' 1"
  let ?c2 = "sample_conversation ''c2'' 2"
  let ?st = "initial_state [?c1, ?c2]"
  let ?st2 = "?st\<lparr>scanned := 1, agentCache := [''sales'' \<mapsto> ([''b'', ''a''], 1)],
                  rpc_calls := [call_for ?senv ?c1 ''b'']\<rparr>"
  have h1: "queue_fetch_error ?env = None \<and> fetch_queue (now_fetch ?env) ?db = [] @ ?r1 # [?r2]
      \<and> process_rows ?env [] ?db = (None, ?db)
      \<and> process_row ?env ?r1 ?db = (Some TypeError, mark_processing 1000 ''q1'' ?db)"
    using two_rows_fetch malformed_row_throws [of ?env ?db] by (simp add: sample_env_def)
  have h2: "convos_error ?senv 0 = None
        \<and> fetch_conversations None (conversations ?st) = [] @ ?c1 # [?c2]
        \<and> process_chunk ?senv ?ps [] ?st = Continue ?st
        \<and> process_convo ?senv ?ps ?c1 ?st = Thrown ?st2"
    using rpc_throws_on_first
    by (simp add: sample_sched_env_def)
      (simp add: fetch_conversations_def unassigned_open_def CHUNK_SIZE_def initial_state_def
        sample_conversation_def)
  note t = exception_ends_the_run [of ?env ?db "[]" ?r1 "[?r2]" ?db TypeError
      "mark_processing 1000 ''q1'' ?db" ?senv 0 None ?st "[]" ?c1 "[?c2]" ?ps ?st ?st2 0]
  from t h1 have a: "serve_queue ?env ?db = (Rejected TypeError, mark_processing 1000 ''q1'' ?db)"
    by blast
  from t h2 have "chunk_loop (Suc 0) ?senv ?ps None 0 ?st =
            (Some (ErrorResponse ''UNEXPECTED_ERROR'' 500), ?st2)"
    by blast
  then have b: "(\<lambda>(resp, st). (resp, map p_conversation_id (rpc_calls st)))
        (chunk_loop (Suc 0) ?senv ?ps None 0 ?st)
      = (Some (ErrorResponse ''UNEXPECTED_ERROR'' 500), [''c1''])"
    by (simp add: call_for_def sample_conversation_def)
  from a b show ?thesis by simp
qed



section \<open>A full chunk that makes no progress\<close>

lemma no_agents_step:
  assumes "cache_ok ps st"
    and "fetch_agents ps (conv_segment c) = [] \<or> (\<forall>k. \<exists>m. assign_outcome env k = RpcError m)"
  shows "\<exists>st1. process_convo env ps c st = Continue st1
           \<and> conversations st1 = conversations st \<and> cache_ok ps st1"
proof -
  have "assign_outcome env (scanned st) \<noteq> RpcThrew \<and> assign_outcome env (scanned st) \<noteq> RpcOk"
    if "\<forall>k. \<exists>m. assign_outcome env k = RpcError m"
    using that by (metis rpc_outcome.distinct(1,5))
  with process_convo_shape [OF assms(1), of env c] assms(2)
  have "\<not> thrown (process_convo env ps c st)"
    and "conversations (result_state (process_convo env ps c st)) = conversations st"
    by auto
  moreover have "cache_ok ps (result_state (process_convo env ps c st))"
    using assms(1) by (rule cache_ok_step)
  ultimately show ?thesis
    by (cases "process_convo env ps c st") (simp_all add: result_state_def)
qed

lemma no_agents_chunk:
  assumes "cache_ok ps st"
    and "\<forall>c \<in> set chunk. fetch_agents ps (conv_segment c) = []
           \<or> (\<forall>k. \<exists>m. assign_outcome env k = RpcError m)"
  shows "\<exists>st1. process_chunk env ps chunk st = Continue st1
           \<and> conversations st1 = conversations st \<and> cache_ok ps st1"
  using assms
proof (induction chunk arbitrary: st)
  case Nil
  then show ?case by simp
next
  case (Cons c rest)
  from no_agents_step [where ps = ps and st = st and c = c and env = env] Cons.prems
  obtain st1 where s: "process_convo env ps c st = Continue st1"
    "conversations st1 = conversations st" "cache_ok ps st1"
    by auto
  from Cons.IH [OF s(3)] Cons.prems(2)
  obtain st2 where "process_chunk env ps rest st1 = Continue st2"
    "conversations st2 = conversations st1" "cache_ok ps st2"
    by auto
  with s show ?case by simp
qed

lemma length_fetch_conversations:
  "length (fetch_conversations target cs) =
     min CHUNK_SIZE (length (filter (unassigned_open target) cs))"
  by (simp add: fetch_conversations_def min.commute)

lemma stuck_loop:
  assumes "\<forall>i. convos_error env i = None" and "cache_ok ps st"
    and "\<forall>c \<in> set (conversations st). unassigned_open target c \<longrightarrow>
           fetch_agents ps (conv_segment c) = []
           \<or> (\<forall>k. \<exists>m. assign_outcome env k = RpcError m)"
    and "CHUNK_SIZE \<le> length (filter (unassigned_open target) (conversations st))"
  shows "fst (chunk_loop fuel env ps target i st) = None
       \<and> conversations (snd (chunk_loop fuel env ps target i st)) = conversations st"
  using assms(2-4)
proof (induction fuel arbitrary: i st)
  case 0
  show ?case by simp
next
  case (Suc fuel)
  let ?chunk = "fetch_conversations target (conversations st)"
  have len: "length ?chunk = CHUNK_SIZE"
    using Suc.prems(3) by (simp add: length_fetch_conversations)
  then have ne: "?chunk \<noteq> []"
    by (auto simp: CHUNK_SIZE_def)
  have "\<forall>c \<in> set ?chunk. fetch_agents ps (conv_segment c) = []
           \<or> (\<forall>k. \<exists>m. assign_outcome env k = RpcError m)"
    using Suc.prems(2) fetch_conversations_subset [of target "conversations st"] by auto
  from no_agents_chunk [OF Suc.prems(1) this]
  obtain st1 where s: "process_chunk env ps ?chunk st = Continue st1"
    "conversations st1 = conversations st" "cache_ok ps st1"
    by auto
  have "fst (chunk_loop fuel env ps target (i + 1) st1) = None
      \<and> conversations (snd (chunk_loop fuel env ps target (i + 1) st1)) = conversations st1"
    using Suc.IH [of st1 "i + 1"] s Suc.prems by simp
  then show ?case
    using assms(1) ne len s by (simp add: Let_def)
qed

text \<open>
  C5 fails on the handler. A backlog of 200 open, unassigned conversations of a segment
  whose only agent is not present today: every conversation of the chunk fails with
  \<open>No available agents\<close> and stays unassigned, the chunk was full, and the next fetch
  returns the same 200 rows. Whatever the fuel, the loop is still running when it is
  spent.
\<close>

theorem scan_without_agents_never_returns:
  "\<forall>fuel. fst (assignment_run fuel (sample_sched_env True (\<lambda>k. None) (\<lambda>k. RpcOk))
       [(sample_profile ''a'' ''agent'' None)\<lparr>present_today := False\<rparr>] None
       (map (\<lambda>n. sample_conversation (show_nat n) (int n)) [0..<200])) = None"
proof
  fix fuel
  let ?env = "sample_sched_env True (\<lambda>k. None) (\<lambda>k. RpcOk)"
  let ?ps = "[(sample_profile ''a'' ''agent'' None)\<lparr>present_today := False\<rparr>]"
  let ?cs = "map (\<lambda>n. sample_conversation (show_nat n) (int n)) [0..<200]"
  have e: "\<forall>i. convos_error ?env i = None"
    by (simp add: sample_sched_env_def)
  have c: "cache_ok ?ps (initial_state ?cs)"
    by (simp add: cache_ok_def initial_state_def)
  have r: "fetch_agents ?ps seg = []" for seg
    by (simp add: fetch_agents_def eligible_def sample_profile_def)
  have a: "\<forall>c \<in> set (conversations (initial_state ?cs)). unassigned_open None c \<longrightarrow>
             fetch_agents ?ps (conv_segment c) = []
             \<or> (\<forall>k. \<exists>m. assign_outcome ?env k = RpcError m)"
    using r by simp
  have "filter (unassigned_open None) ?cs = ?cs"
    by (rule filter_True) (auto simp: unassigned_open_def sample_conversation_def)
  then have l: "CHUNK_SIZE \<le> length (filter (unassigned_open None) (conversations (initial_state ?cs)))"
    by (simp add: initial_state_def CHUNK_SIZE_def)
  have "fst (chunk_loop fuel ?env ?ps None 0 (initial_state ?cs)) = None"
    using stuck_loop [OF e c a l] by blast
  then show "fst (assignment_run fuel ?env ?ps None ?cs) = None"
    by (simp add: assignment_run_def sample_sched_env_def)
qed

theorem scan_without_agents_never_returns_witness:
  "fst (assignment_run 1000 (sample_sched_env True (\<lambda>k. None) (\<lambda>k. RpcOk))
       [(sample_profile ''a'' ''agent'' None)\<lparr>present_today := False\<rparr>] None
       (map (\<lambda>n. sample_conversation (show_nat n) (int n)) [0..<200])) = None"
  using scan_without_agents_never_returns by blast


text \<open>The same with an agent present and every assignment call answering an error.\<close>

lemma scan_with_failing_commits_never_returns:
  "\<forall>fuel. fst (assignment_run fuel
       (sample_sched_env True (\<lambda>k. None) (\<lambda>k. RpcError ''conflict''))
       [sample_profile ''a'' ''agent'' None] None
       (map (\<lambda>n. sample_conversation (show_nat n) (int n)) [0..<200])) = None"
proof
  fix fuel
  let ?env = "sample_sched_env True (\<lambda>k. None) (\<lambda>k. RpcError ''conflict'')"
  let ?ps = "[sample_profile ''a'' ''agent'' None]"
  let ?cs = "map (\<lambda>n. sample_conversation (show_nat n) (int n)) [0..<200]"
  have e: "\<forall>i. convos_error ?env i = None"
    by (simp add: sample_sched_env_def)
  have c: "cache_ok ?ps (initial_state ?cs)"
    by (simp add: cache_ok_def initial_state_def)
  have a: "\<forall>c \<in> set (conversations (initial_state ?cs)). unassigned_open None c \<longrightarrow>
             fetch_agents ?ps (conv_segment c) = []
             \<or> (\<forall>k. \<exists>m. assign_outcome ?env k = RpcError m)"
    by (simp add: sample_sched_env_def)
  have "filter (unassigned_open None) ?cs = ?cs"
    by (rule filter_True) (auto simp: unassigned_open_def sample_conversation_def)
  then have l: "CHUNK_SIZE \<le> length (filter (unassigned_open None) (conversations (initial_state ?cs)))"
    by (simp add: initial_state_def CHUNK_SIZE_def)
  have "fst (chunk_loop fuel ?env ?ps None 0 (initial_state ?cs)) = None"
    using stuck_loop [OF e c a l] by blast
  then show "fst (assignment_run fuel ?env ?ps None ?cs) = None"
    by (simp add: assignment_run_def sample_sched_env_def)
qed



section \<open>The rotation over a run\<close>

lemma count_cyclic:
  assumes "distinct roster" and "i < length roster"
  shows "count_list (map (\<lambda>j. roster ! (j mod length roster)) [0..<S]) (roster ! i) =
           S div length roster + (if i < S mod length roster then 1 else 0)"
proof (induction S)
  case 0
  then show ?case by simp
next
  case (Suc S)
  let ?n = "length roster"
  have n: "0 < ?n" using assms(2) by (cases roster) auto
  have m: "S mod ?n < ?n" using n by simp
  have eq: "roster ! (S mod ?n) = roster ! i \<longleftrightarrow> S mod ?n = i"
    using assms m by (simp add: nth_eq_iff_index_eq)
  have "count_list (map (\<lambda>j. roster ! (j mod ?n)) [0..<Suc S]) (roster ! i) =
          count_list (map (\<lambda>j. roster ! (j mod ?n)) [0..<S]) (roster ! i)
          + (if S mod ?n = i then 1 else 0)"
    using eq by simp
  also have "\<dots> = S div ?n + (if i < S mod ?n then 1 else 0) + (if S mod ?n = i then 1 else 0)"
    using Suc.IH by simp
  also have "\<dots> = Suc S div ?n + (if i < Suc S mod ?n then 1 else 0)"
    using m assms(2) by (auto simp: mod_Suc div_Suc)
  finally show ?case .
qed

lemma ceil_div:
  fixes s n :: nat
  assumes "0 < n" and "s mod n \<noteq> 0"
  shows "(s + n - 1) div n = s div n + 1"
proof -
  define q where "q = s div n"
  define r where "r = s mod n"
  have s: "s = n * q + r"
    unfolding q_def r_def by simp
  have r: "0 < r" "r < n"
    using assms unfolding r_def by simp_all
  have "s + n - 1 = n * (q + 1) + (r - 1)"
    using s r by (simp add: algebra_simps)
  then have "(s + n - 1) div n = (n * (q + 1) + (r - 1)) div n"
    by simp
  also have "\<dots> = q + 1 + (r - 1) div n"
    using assms(1) by (simp only: div_mult_self4 [OF less_imp_neq [THEN not_sym], OF assms(1)])
  also have "(r - 1) div n = 0"
    using r by simp
  finally show ?thesis
    unfolding q_def by simp
qed


lemma fetch_agents_distinct:
  assumes "distinct (map profile_id ps)"
  shows "distinct (fetch_agents ps seg)"
proof -
  let ?xs = "sort_key last_chat_assigned_at (filter (eligible seg) ps)"
  have "inj_on profile_id (set ps)" and "distinct ps"
    using assms by (simp_all add: distinct_map)
  then have "distinct ?xs" and "inj_on profile_id (set ?xs)"
    by (auto intro: inj_on_subset)
  then show ?thesis
    unfolding fetch_agents_def by (simp add: distinct_map)
qed

lemma fetch_agents_hd_min:
  assumes "fetch_agents ps seg \<noteq> []"
  shows "\<exists>p \<in> set ps. eligible seg p \<and> profile_id p = hd (fetch_agents ps seg)
           \<and> (\<forall>q \<in> set ps. eligible seg q \<longrightarrow>
                 last_chat_assigned_at p \<le> last_chat_assigned_at q)"
proof -
  let ?xs = "sort_key last_chat_assigned_at (filter (eligible seg) ps)"
  from assms obtain p rest where xs: "?xs = p # rest"
    unfolding fetch_agents_def by (cases ?xs) auto
  have "p \<in> set ?xs" using xs by simp
  then have p: "p \<in> set ps" "eligible seg p" by auto
  have h: "profile_id p = hd (fetch_agents ps seg)"
    unfolding fetch_agents_def xs by simp
  have "sorted (map last_chat_assigned_at ?xs)"
    by (rule sorted_sort_key)
  then have le: "\<forall>q \<in> set rest. last_chat_assigned_at p \<le> last_chat_assigned_at q"
    unfolding xs by simp
  have "last_chat_assigned_at p \<le> last_chat_assigned_at q"
    if "q \<in> set ps" "eligible seg q" for q
  proof -
    from that have "q \<in> set ?xs" by simp
    then have "q = p \<or> q \<in> set rest" unfolding xs by simp
    with le show ?thesis by auto
  qed
  with p h show ?thesis by blast
qed

lemma unassigned_after_assign:
  assumes "c \<in> set (assign_conversation i a cs)" and "unassigned_open target c"
  shows "c \<in> set cs"
  using assms by (auto simp: assign_conversation_def unassigned_open_def split: if_splits)

lemma rotation_step:
  fixes ps seg
  defines "roster \<equiv> fetch_agents ps seg"
  assumes ne: "roster \<noteq> []"
    and ok: "cache_ok ps st"
    and single: "\<forall>c \<in> set (conversations st). unassigned_open target c \<longrightarrow> conv_segment c = seg"
    and rot: "assignees st = map (\<lambda>j. roster ! (j mod length roster)) [0..<length (rpc_calls st)]"
    and fresh: "agentCache st seg = None \<longrightarrow> rpc_calls st = []"
    and cur: "\<forall>l idx. agentCache st seg = Some (l, idx) \<longrightarrow>
                idx = length (rpc_calls st) mod length roster"
    and c: "conv_segment c = seg"
  shows "(\<forall>c' \<in> set (conversations (result_state (process_convo env ps c st))).
            unassigned_open target c' \<longrightarrow> conv_segment c' = seg)
       \<and> assignees (result_state (process_convo env ps c st)) =
           map (\<lambda>j. roster ! (j mod length roster))
             [0..<length (rpc_calls (result_state (process_convo env ps c st)))]
       \<and> (agentCache (result_state (process_convo env ps c st)) seg = None \<longrightarrow>
             rpc_calls (result_state (process_convo env ps c st)) = [])
       \<and> (\<forall>l idx. agentCache (result_state (process_convo env ps c st)) seg = Some (l, idx) \<longrightarrow>
             idx = length (rpc_calls (result_state (process_convo env ps c st))) mod length roster)"
proof -
  let ?r = "result_state (process_convo env ps c st)"
  let ?S = "length (rpc_calls st)"
  let ?N = "length roster"
  from process_convo_shape [OF ok, of env c]
  consider (quiet) "rpc_calls ?r = rpc_calls st" "conversations ?r = conversations st"
      "agentCache ?r = agentCache st"
    | (selected) idx where "idx < ?N"
      "agentCache st seg = Some (roster, idx) \<or> agentCache st seg = None \<and> idx = 0"
      "agentCache ?r = (agentCache st)(seg \<mapsto> (roster, (idx + 1) mod ?N))"
      "rpc_calls ?r = rpc_calls st @ [call_for env c (roster ! idx)]"
      "conversations ?r = conversations st
       \<or> (\<exists>a. conversations ?r = assign_conversation (conv_id c) a (conversations st))"
    unfolding roster_def c [symmetric] using ne [unfolded roster_def c [symmetric]]
    by (cases "assign_outcome env (scanned st) = RpcOk") auto
  then show ?thesis
  proof cases
    case quiet
    with single rot fresh cur show ?thesis by (simp add: assignees_def)
  next
    case selected
    have idx: "idx = ?S mod ?N"
      using selected(2) cur fresh by auto
    have a: "\<forall>c' \<in> set (conversations ?r). unassigned_open target c' \<longrightarrow> conv_segment c' = seg"
      using selected(5) single unassigned_after_assign by metis
    have b: "assignees ?r = map (\<lambda>j. roster ! (j mod ?N)) [0..<length (rpc_calls ?r)]"
      using rot selected(4) idx by (simp add: assignees_def call_for_def)
    have d: "agentCache ?r seg \<noteq> None"
      and e: "\<forall>l i. agentCache ?r seg = Some (l, i) \<longrightarrow> i = length (rpc_calls ?r) mod ?N"
      using selected(3,4) idx by (simp_all add: mod_Suc_eq)
    from a b d e show ?thesis by blast
  qed
qed


lemma offered_step:
  assumes "cache_ok ps st" and "fetch_agents ps (conv_segment c) \<noteq> []"
    and "agents_error env (scanned st) = None" and "assign_outcome env (scanned st) \<noteq> RpcThrew"
  shows "\<exists>st1. process_convo env ps c st = Continue st1 \<and> cache_ok ps st1
           \<and> map p_conversation_id (rpc_calls st1) =
               map p_conversation_id (rpc_calls st) @ [conv_id c]"
proof -
  let ?r = "process_convo env ps c st"
  from process_convo_shape [OF assms(1), of env c] assms(2-4)
  have "\<not> thrown ?r"
    and "\<exists>a. rpc_calls (result_state ?r) = rpc_calls st @ [call_for env c a]"
    by auto
  moreover have "cache_ok ps (result_state ?r)"
    using assms(1) by (rule cache_ok_step)
  ultimately show ?thesis
    by (cases ?r) (auto simp: result_state_def call_for_def)
qed

lemma offered_chunk:
  assumes "cache_ok ps st" and "\<forall>c \<in> set chunk. fetch_agents ps (conv_segment c) \<noteq> []"
    and "\<forall>k. agents_error env k = None" and "\<forall>k. assign_outcome env k \<noteq> RpcThrew"
  shows "\<exists>st1. process_chunk env ps chunk st = Continue st1 \<and> cache_ok ps st1
           \<and> map p_conversation_id (rpc_calls st1) =
               map p_conversation_id (rpc_calls st) @ map conv_id chunk"
  using assms(1,2)
proof (induction chunk arbitrary: st)
  case Nil
  then show ?case by simp
next
  case (Cons c rest)
  have "fetch_agents ps (conv_segment c) \<noteq> []"
    using Cons.prems(2) by simp
  from offered_step [OF Cons.prems(1) this] assms(3,4)
  obtain st1 where s: "process_convo env ps c st = Continue st1" "cache_ok ps st1"
    "map p_conversation_id (rpc_calls st1) = map p_conversation_id (rpc_calls st) @ [conv_id c]"
    by blast
  from Cons.IH [OF s(2)] Cons.prems(2)
  obtain st2 where "process_chunk env ps rest st1 = Continue st2" "cache_ok ps st2"
    "map p_conversation_id (rpc_calls st2) =
       map p_conversation_id (rpc_calls st1) @ map conv_id rest"
    by auto
  with s show ?case by simp
qed

lemma single_chunk_run:
  assumes lock: "lock_error env = None" "lock_data env = Some True"
    and noerr: "convos_error env 0 = None" "\<forall>k. agents_error env k = None"
      "\<forall>k. assign_outcome env k \<noteq> RpcThrew"
    and small: "length (filter (unassigned_open target) cs) < CHUNK_SIZE"
    and rosters: "\<forall>c \<in> set cs. unassigned_open target c \<longrightarrow> fetch_agents ps (conv_segment c) \<noteq> []"
  shows "fst (assignment_run (Suc f) env ps target cs) =
           Some (summary (snd (assignment_run (Suc f) env ps target cs)))
       \<and> map p_conversation_id (rpc_calls (snd (assignment_run (Suc f) env ps target cs))) =
           map conv_id (sort_key conv_created_at (filter (unassigned_open target) cs))"
proof -
  let ?st0 = "initial_state cs"
  let ?chunk = "sort_key conv_created_at (filter (unassigned_open target) cs)"
  have run: "assignment_run (Suc f) env ps target cs = chunk_loop (Suc f) env ps target 0 ?st0"
    using lock by (simp add: assignment_run_def)
  have chunk: "fetch_conversations target (conversations ?st0) = ?chunk"
    using small by (simp add: fetch_conversations_def initial_state_def)
  have len: "length ?chunk \<noteq> CHUNK_SIZE"
    using small by simp
  have ok: "cache_ok ps ?st0"
    by (simp add: cache_ok_def initial_state_def)
  have calls0: "rpc_calls ?st0 = []"
    by (simp add: initial_state_def)
  show ?thesis
  proof (cases "?chunk = []")
    case True
    then have "chunk_loop (Suc f) env ps target 0 ?st0 = (Some (summary ?st0), ?st0)"
      using chunk noerr(1) by (simp add: Let_def)
    with True calls0 run show ?thesis by simp
  next
    case False
    have "\<forall>c \<in> set ?chunk. fetch_agents ps (conv_segment c) \<noteq> []"
      using rosters by simp
    from offered_chunk [OF ok this noerr(2,3)]
    obtain st1 where s: "process_chunk env ps ?chunk ?st0 = Continue st1"
      "map p_conversation_id (rpc_calls st1) =
         map p_conversation_id (rpc_calls ?st0) @ map conv_id ?chunk"
      by blast
    have "chunk_loop (Suc f) env ps target 0 ?st0 = (Some (summary st1), st1)"
      using chunk noerr(1) False len s(1) by (simp add: Let_def)
    with s(2) calls0 run show ?thesis by simp
  qed
qed

text \<open>
  C2, as the handler has it. At every point of a run (whatever the fuel), over a table
  whose open, unassigned conversations are all of one segment with a roster of
  \<open>N > 0\<close> agents of distinct ids, the agents selected so far are the roster taken
  cyclically from its head. So with \<open>S\<close> selections each agent is selected \<open>S div N\<close> or
  \<open>(S + N - 1) div N\<close> times, the floor and the ceiling of \<open>S / N\<close>, and the first
  selection goes to an eligible agent whose \<open>last_chat_assigned_at\<close> is least, nulls
  first. When the lock is acquired, no fetch fails, no call throws and the backlog is
  shorter than a chunk, the run returns after one iteration of the loop, having offered
  each conversation of the backlog once, oldest first, so \<open>S\<close> is the length of the
  backlog.
\<close>

theorem round_robin_rotation:
  fixes fuel env ps target cs
  defines "st \<equiv> snd (assignment_run fuel env ps target cs)"
  assumes single: "\<forall>c \<in> set cs. unassigned_open target c \<longrightarrow> conv_segment c = seg"
    and ids: "distinct (map profile_id ps)"
    and ne: "fetch_agents ps seg \<noteq> []"
  shows "(\<forall>a \<in> set (fetch_agents ps seg).
            count_list (assignees st) a = length (assignees st) div length (fetch_agents ps seg)
          \<or> count_list (assignees st) a =
              (length (assignees st) + length (fetch_agents ps seg) - 1)
                div length (fetch_agents ps seg))
       \<and> (assignees st \<noteq> [] \<longrightarrow>
            (\<exists>p \<in> set ps. eligible seg p \<and> profile_id p = hd (assignees st)
               \<and> (\<forall>q \<in> set ps. eligible seg q \<longrightarrow>
                     last_chat_assigned_at p \<le> last_chat_assigned_at q)))
       \<and> (lock_error env = None \<and> lock_data env = Some True \<and> convos_error env 0 = None
            \<and> (\<forall>k. agents_error env k = None) \<and> (\<forall>k. assign_outcome env k \<noteq> RpcThrew)
            \<and> length (filter (unassigned_open target) cs) < CHUNK_SIZE \<and> 0 < fuel
          \<longrightarrow> fst (assignment_run fuel env ps target cs) = Some (summary st)
              \<and> map p_conversation_id (rpc_calls st) =
                  map conv_id (sort_key conv_created_at (filter (unassigned_open target) cs)))"
proof -
  let ?roster = "fetch_agents ps seg"
  let ?N = "length ?roster"
  let ?S = "length (rpc_calls st)"
  let ?I = "\<lambda>s. cache_ok ps s
      \<and> (\<forall>c \<in> set (conversations s). unassigned_open target c \<longrightarrow> conv_segment c = seg)
      \<and> assignees s = map (\<lambda>j. ?roster ! (j mod ?N)) [0..<length (rpc_calls s)]
      \<and> (agentCache s seg = None \<longrightarrow> rpc_calls s = [])
      \<and> (\<forall>l idx. agentCache s seg = Some (l, idx) \<longrightarrow> idx = length (rpc_calls s) mod ?N)"
  let ?Q = "\<lambda>c. conv_segment c = seg"
  have init: "?I (initial_state cs)"
    using single by (simp add: initial_state_def cache_ok_def assignees_def)
  have sel: "?Q c" if "?I s" "c \<in> set (fetch_conversations target (conversations s))" for s c
    using that fetch_conversations_subset [of target "conversations s"] by auto
  have step: "?I (result_state (process_convo env ps c s))" if "?I s" "?Q c" for s c
    using that cache_ok_step [of ps s env c]
      rotation_step [OF ne, of s target c env]
    by simp
  have inv: "?I st"
    unfolding st_def
    using init sel step by (rule assignment_run_invariant [where I = ?I and Q = ?Q])
  then have rot: "assignees st = map (\<lambda>j. ?roster ! (j mod ?N)) [0..<?S]"
    by simp
  have len: "length (assignees st) = ?S"
    by (simp add: assignees_def)
  have N: "0 < ?N" using ne by simp
  have d: "distinct ?roster"
    using ids by (rule fetch_agents_distinct)
  have fair: "count_list (assignees st) a = length (assignees st) div ?N
          \<or> count_list (assignees st) a = (length (assignees st) + ?N - 1) div ?N"
    if "a \<in> set ?roster" for a
  proof -
    from that obtain i where i: "i < ?N" "a = ?roster ! i"
      by (auto simp: in_set_conv_nth)
    have c: "count_list (assignees st) a = ?S div ?N + (if i < ?S mod ?N then 1 else 0)"
      unfolding rot i(2) using d i(1) by (rule count_cyclic)
    show ?thesis
    proof (cases "?S mod ?N = 0")
      case True
      with c len show ?thesis by simp
    next
      case False
      from ceil_div [OF N False] c len show ?thesis by auto
    qed
  qed
  have first: "\<exists>p \<in> set ps. eligible seg p \<and> profile_id p = hd (assignees st)
               \<and> (\<forall>q \<in> set ps. eligible seg q \<longrightarrow>
                     last_chat_assigned_at p \<le> last_chat_assigned_at q)"
    if "assignees st \<noteq> []"
  proof -
    from that have "0 < ?S" by (simp add: assignees_def)
    then have "hd (assignees st) = ?roster ! 0"
      unfolding rot using N by (simp add: hd_map upt_conv_Cons)
    then have "hd (assignees st) = hd ?roster"
      using ne by (simp add: hd_conv_nth)
    with fetch_agents_hd_min [OF ne] show ?thesis by simp
  qed
  have once: "fst (assignment_run fuel env ps target cs) = Some (summary st)
              \<and> map p_conversation_id (rpc_calls st) =
                  map conv_id (sort_key conv_created_at (filter (unassigned_open target) cs))"
    if h: "lock_error env = None \<and> lock_data env = Some True \<and> convos_error env 0 = None
            \<and> (\<forall>k. agents_error env k = None) \<and> (\<forall>k. assign_outcome env k \<noteq> RpcThrew)
            \<and> length (filter (unassigned_open target) cs) < CHUNK_SIZE \<and> 0 < fuel"
  proof -
    from h obtain f where fuel: "fuel = Suc f"
      by (cases fuel) auto
    have r: "\<forall>c \<in> set cs. unassigned_open target c \<longrightarrow> fetch_agents ps (conv_segment c) \<noteq> []"
      using single ne by auto
    from h have "lock_error env = None" "lock_data env = Some True" "convos_error env 0 = None"
      "\<forall>k. agents_error env k = None" "\<forall>k. assign_outcome env k \<noteq> RpcThrew"
      "length (filter (unassigned_open target) cs) < CHUNK_SIZE"
      by simp_all
    from single_chunk_run [OF this r, of f] show ?thesis
      unfolding st_def fuel by simp
  qed
  from fair first once show ?thesis by blast
qed

text \<open>
  C2 as stated fails: two eligible agents, two conversations, and the roster fetch made
  for the first conversation fails. The first conversation is offered to nobody, the
  second to \<open>b\<close>, and \<open>a\<close> is selected 0 times, where the floor and the ceiling of
  \<open>2 / 2\<close> are both 1.
\<close>

theorem round_robin_counts_counterexample:
  "fetch_agents [sample_profile ''a'' ''agent'' (Some 5), sample_profile ''b'' ''agent'' None]
     ''sales'' = [''b'', ''a'']
   \<and> length (filter (unassigned_open None)
        [sample_conversation ''c1'' 1, sample_conversation ''c2'' 2]) = 2
   \<and> (\<lambda>(resp, st). (resp, map p_conversation_id (rpc_calls st), assignees st,
                      count_list (assignees st) ''a''))
        (assignment_run 1
          (sample_sched_env True (\<lambda>k. if k = 0 then Some ''timeout'' else None) (\<lambda>k. RpcOk))
          [sample_profile ''a'' ''agent'' (Some 5), sample_profile ''b'' ''agent'' None] None
          [sample_conversation ''c1'' 1, sample_conversation ''c2'' 2])
      = (Some (Success 1 1
                 (Some [\<lparr>cid = ''c1'', aid = None,
                         reason = ''Failed to fetch agents for segment sales: timeout''\<rparr>])),
         [''c2''], [''b''], 0)
   \<and> (2 :: nat) div 2 = 1 \<and> (2 + 2 - 1) div 2 = (1 :: nat)"
  by (simp add: sched_defs sched_sample_defs assignees_def)

theorem round_robin_rotation_witness:
  "assignees (snd (assignment_run 1 (sample_sched_env True (\<lambda>k. None) (\<lambda>k. RpcOk))
       [sample_profile ''a'' ''agent'' (Some 5), sample_profile ''m'' ''admin'' None,
        sample_profile ''b'' ''team_leader'' None] None
       [sample_conversation ''c1'' 1, sample_conversation ''c2'' 2, sample_conversation ''c3'' 3]))
     = [''b'', ''a'', ''b'']
   \<and> (count_list [''b'', ''a'', ''b''] ''a'' = 3 div 2
        \<or> count_list [''b'', ''a'', ''b''] ''a'' = (3 + 2 - 1) div 2)
   \<and> (count_list [''b'', ''a'', ''b''] ''b'' = 3 div 2
        \<or> count_list [''b'', ''a'', ''b''] ''b'' = (3 + 2 - 1) div 2)
   \<and> fst (assignment_run 1 (sample_sched_env True (\<lambda>k. None) (\<lambda>k. RpcOk))
       [sample_profile ''a'' ''agent'' (Some 5), sample_profile ''m'' ''admin'' None,
        sample_profile ''b'' ''team_leader'' None] None
       [sample_conversation ''c1'' 1, sample_conversation ''c2'' 2, sample_conversation ''c3'' 3])
     = Some (Success 3 0 None)
   \<and> map p_conversation_id (rpc_calls (snd (assignment_run 1
       (sample_sched_env True (\<lambda>k. None) (\<lambda>k. RpcOk))
       [sample_profile ''a'' ''agent'' (Some 5), sample_profile ''m'' ''admin'' None,
        sample_profile ''b'' ''team_leader'' None] None
       [sample_conversation ''c1'' 1, sample_conversation ''c2'' 2,
        sample_conversation ''c3'' 3])))
     = [''c1'', ''c2'', ''c3'']"
proof -
  let ?env = "sample_sched_env True (\<lambda>k. None) (\<lambda>k. RpcOk)"
  let ?ps = "[sample_profile ''a'' ''agent'' (Some 5), sample_profile ''m'' ''admin'' None,
        sample_profile ''b'' ''team_leader'' None]"
  let ?cs = "[sample_conversation ''c1'' 1, sample_conversation ''c2'' 2, sample_conversation ''c3'' 3]"
  let ?st = "snd (assignment_run 1 ?env ?ps None ?cs)"
  from sample_run have a: "assignees ?st = [''b'', ''a'', ''b'']"
    and r: "fst (assignment_run 1 ?env ?ps None ?cs) = Some (Success 3 0 None)"
    by (simp_all add: case_prod_unfold)
  have single: "\<forall>c \<in> set ?cs. unassigned_open None c \<longrightarrow> conv_segment c = ''sales''"
    by (simp add: sample_conversation_def)
  have ids: "distinct (map profile_id ?ps)"
    by (simp add: sample_profile_def)
  have ne: "fetch_agents ?ps ''sales'' \<noteq> []"
    by (simp add: sample_roster)
  note t = round_robin_rotation [OF single ids ne, of 1 ?env]
  have l: "length (assignees ?st) = 3" "length (fetch_agents ?ps ''sales'') = 2"
    "''a'' \<in> set (fetch_agents ?ps ''sales'')" "''b'' \<in> set (fetch_agents ?ps ''sales'')"
    using a by (simp_all add: sample_roster)
  from t l have "count_list (assignees ?st) ''a'' = 3 div 2
                   \<or> count_list (assignees ?st) ''a'' = (3 + 2 - 1) div 2"
    by metis
  then have ca: "count_list [''b'', ''a'', ''b''] ''a'' = 3 div 2
                   \<or> count_list [''b'', ''a'', ''b''] ''a'' = (3 + 2 - 1) div 2"
    unfolding a .
  from t l have "count_list (assignees ?st) ''b'' = 3 div 2
                   \<or> count_list (assignees ?st) ''b'' = (3 + 2 - 1) div 2"
    by metis
  then have cb: "count_list [''b'', ''a'', ''b''] ''b'' = 3 div 2
                   \<or> count_list [''b'', ''a'', ''b''] ''b'' = (3 + 2 - 1) div 2"
    unfolding a .
  have h: "lock_error ?env = None \<and> lock_data ?env = Some True \<and> convos_error ?env 0 = None
            \<and> (\<forall>k. agents_error ?env k = None) \<and> (\<forall>k. assign_outcome ?env k \<noteq> RpcThrew)
            \<and> length (filter (unassigned_open None) ?cs) < CHUNK_SIZE \<and> 0 < (1 :: nat)"
    by (simp add: sample_sched_env_def unassigned_open_def sample_conversation_def CHUNK_SIZE_def)
  from t h have "map p_conversation_id (rpc_calls ?st) =
                   map conv_id (sort_key conv_created_at (filter (unassigned_open None) ?cs))"
    by blast
  then have o: "map p_conversation_id (rpc_calls ?st) = [''c1'', ''c2'', ''c3'']"
    by (simp add: unassigned_open_def sample_conversation_def)
  from a ca cb r o show ?thesis by simp
qed

end
